theory Spec2Isabelle
  imports Complex_Main "HOL-Library.AList"
begin

section \<open>The 7TV emote provider (src/providers/seventv/SeventvEmotes.cpp)\<close>

text \<open>
  A shallow embedding of \<^verbatim>\<open>SeventvEmotes.cpp\<close>: the variant selector
  \<^verbatim>\<open>createImageSet\<close>, the record builders \<^verbatim>\<open>createEmote\<close> and
  \<^verbatim>\<open>createUpdatedEmote\<close>, the visibility policy, the batch builder
  \<^verbatim>\<open>parseEmotes\<close> and the three incremental operations \<^verbatim>\<open>addEmote\<close>,
  \<^verbatim>\<open>updateEmote\<close> and \<^verbatim>\<open>removeEmote\<close>.

  Conventions of the embedding:
  \<^item> a \<^verbatim>\<open>QString\<close> is a \<open>string\<close>; the null and the empty \<^verbatim>\<open>QString\<close> are both \<open>[]\<close>;
  \<^item> a JSON number is a C++ \<^verbatim>\<open>double\<close>; every double is a rational, and the model reads
    the numbers as rationals. The code compares them with 0 and truncates them, which is
    exact, and divides one by another: the model keeps the quotient of two doubles
    unevaluated, as the pair of its operands, and says nothing about its rounded value;
  \<^item> a shared pointer to a constant object is a pair of an address and the (immutable)
    object; pointer equality is equality of addresses; the null pointer is \<open>None\<close> where
    the code can hold one;
  \<^item> the operations that can throw or dereference a null pointer return \<open>error + 'a\<close>.
\<close>

subsection \<open>JSON values (QJsonValue, QJsonObject, QJsonArray)\<close>

datatype json =
    JUndefined
  | JNull
  | JBool bool
  | JDouble rat
  | JString string
  | JArray "json list"
  | JObject "(string \<times> json) list"

type_synonym QJsonObject = "(string \<times> json) list"
type_synonym QJsonArray = "json list"

text \<open>
  The accessors of Qt's JSON classes. Qt is a library outside the repository; the
  definitions follow its documentation: a conversion of a value of another type returns
  the default (an empty object or array, the null string, \<open>false\<close>, \<open>0\<close>), a missing key
  and an index out of bounds return the undefined value.
\<close>

definition toObject :: "json \<Rightarrow> QJsonObject" where
  "toObject j = (case j of JObject kvs \<Rightarrow> kvs | _ \<Rightarrow> [])"

definition toArray :: "json \<Rightarrow> QJsonArray" where
  "toArray j = (case j of JArray xs \<Rightarrow> xs | _ \<Rightarrow> [])"

definition toString :: "json \<Rightarrow> string" where
  "toString j = (case j of JString s \<Rightarrow> s | _ \<Rightarrow> [])"

definition toBool :: "json \<Rightarrow> bool" where
  "toBool j = (case j of JBool b \<Rightarrow> b | _ \<Rightarrow> False)"

definition toDouble :: "json \<Rightarrow> rat" where
  "toDouble j = (case j of JDouble r \<Rightarrow> r | _ \<Rightarrow> 0)"

definition INT_MIN :: int where
  "INT_MIN = - 2147483648"

definition INT_MAX :: int where
  "INT_MAX = 2147483647"

definition toInt :: "int \<Rightarrow> json \<Rightarrow> int" where
  \<comment> \<open>\<^verbatim>\<open>QJsonValue::toInt(defaultValue)\<close>: the value when it is a whole number in the range
      of \<^verbatim>\<open>int\<close>, the default otherwise.\<close>
  "toInt dflt j =
     (case j of
        JDouble r \<Rightarrow>
          (if r = of_int \<lfloor>r\<rfloor> \<and> INT_MIN \<le> \<lfloor>r\<rfloor> \<and> \<lfloor>r\<rfloor> \<le> INT_MAX then \<lfloor>r\<rfloor> else dflt)
      | _ \<Rightarrow> dflt)"

definition jvalue :: "QJsonObject \<Rightarrow> string \<Rightarrow> json" where
  \<comment> \<open>\<^verbatim>\<open>QJsonObject::value(key)\<close> and \<^verbatim>\<open>QJsonObject::operator[](key) const\<close>\<close>
  "jvalue obj key = (case map_of obj key of Some v \<Rightarrow> v | None \<Rightarrow> JUndefined)"

definition jat :: "QJsonArray \<Rightarrow> nat \<Rightarrow> json" where
  \<comment> \<open>\<^verbatim>\<open>QJsonArray::at(i)\<close> and \<^verbatim>\<open>QJsonArray::operator[](i) const\<close>\<close>
  "jat xs i = (if i < length xs then xs ! i else JUndefined)"

definition jindex :: "json \<Rightarrow> string \<Rightarrow> json" where
  \<comment> \<open>\<^verbatim>\<open>QJsonValue::operator[](key) const\<close>\<close>
  "jindex j key = jvalue (toObject j) key"

subsection \<open>Settings and flag constants\<close>

text \<open>
  The two settings the file reads (\<^verbatim>\<open>ALLOW_AVIF_IMAGES()\<close> and
  \<^verbatim>\<open>showUnlistedSevenTVEmotes\<close>) and the two flag tests whose enum constants are
  declared in \<^verbatim>\<open>SeventvEmotes.hpp\<close>, outside the sources at hand, are parameters of the
  model: \<open>hasZeroWidth n\<close> is
  \<^verbatim>\<open>SeventvActiveEmoteFlags(SeventvActiveEmoteFlag(n)).has(ZeroWidth)\<close> and
  \<open>hasContentTwitchDisallowed n\<close> is
  \<^verbatim>\<open>SeventvEmoteFlags(SeventvEmoteFlag(n)).has(ContentTwitchDisallowed)\<close>.
\<close>

record Settings =
  allowAvifImages :: bool
  showUnlistedSevenTVEmotes :: bool
  hasZeroWidth :: "int \<Rightarrow> bool"
  hasContentTwitchDisallowed :: "int \<Rightarrow> bool"

datatype SeventvEmoteSetKind = Global | Personal | Channel

subsection \<open>Images and image sets\<close>

text \<open>
  Modelled from the spec: the classes \<^verbatim>\<open>Image\<close> and \<^verbatim>\<open>ImageSet\<close> are declared in
  \<^verbatim>\<open>messages/Image.hpp\<close> and \<^verbatim>\<open>messages/ImageSet.hpp\<close>, which are not among the sources.
  Following section 4.1 of the specification, a filled slot stores the remote reference,
  the scale factor and the pixel dimensions (\<^verbatim>\<open>Image::fromUrl\<close>); the placeholder of
  \<^verbatim>\<open>Image::getEmpty()\<close> differs from every real variant and is the only image that is
  empty; \<^verbatim>\<open>ImageSet{}\<close> holds the placeholder in every slot. An \<^verbatim>\<open>ImagePtr\<close> is a shared
  pointer and can be null, as the elements of \<^verbatim>\<open>std::array<ImagePtr, 4> sizes\<close> are at
  first. A scale factor is a \<^verbatim>\<open>double\<close>: \<open>Finite r\<close> is the double of the value \<open>r\<close> (the
  code stores the constant 1.0), and \<open>Quotient a b\<close> is the double that the IEEE 754
  division of the double \<open>a\<close> by the double \<open>b\<close> gives: the nearest double to \<open>a / b\<close>, or
  an infinity when that overflows or \<open>b\<close> is 0. The model does not compute it: two
  different terms can stand for the same double, and no statement below rests on two
  scale factors being different.
\<close>

datatype qreal = Finite rat | Quotient rat rat

datatype Image =
    Image (imageUrl: string) (imageScale: qreal) (imageSize: "int \<times> int")
  | EmptyImage

type_synonym ImagePtr = "Image option"

datatype error = OutOfRange | NullDeref

definition isEmpty :: "ImagePtr \<Rightarrow> error + bool" where
  \<comment> \<open>\<^verbatim>\<open>ptr->isEmpty()\<close>: only the placeholder of \<^verbatim>\<open>Image::getEmpty()\<close> is empty\<close>
  "isEmpty p = (case p of None \<Rightarrow> Inl NullDeref | Some i \<Rightarrow> Inr (i = EmptyImage))"

record ImageSet =
  imageX1 :: ImagePtr
  imageX2 :: ImagePtr
  imageX3 :: ImagePtr

definition ImageSet_default :: ImageSet where
  \<comment> \<open>\<^verbatim>\<open>ImageSet{}\<close>: every variant is the empty placeholder\<close>
  "ImageSet_default =
     \<lparr>imageX1 = Some EmptyImage, imageX2 = Some EmptyImage, imageX3 = Some EmptyImage\<rparr>"

definition static_cast_int :: "rat \<Rightarrow> int" where
  \<comment> \<open>\<^verbatim>\<open>static_cast<int>(double)\<close> truncates toward zero; out of the range of \<^verbatim>\<open>int\<close>
      C++ leaves the result undefined, the model takes the x86-64 result \<^verbatim>\<open>INT_MIN\<close>.\<close>
  "static_cast_int r =
     (let t = (if 0 \<le> r then \<lfloor>r\<rfloor> else \<lceil>r\<rceil>)
      in if INT_MIN \<le> t \<and> t \<le> INT_MAX then t else INT_MIN)"

definition ddiv :: "rat \<Rightarrow> rat \<Rightarrow> qreal" where
  \<comment> \<open>\<^verbatim>\<open>a / b\<close> on doubles\<close>
  "ddiv a b = Quotient a b"

definition array_at_put :: "ImagePtr list \<Rightarrow> nat \<Rightarrow> ImagePtr \<Rightarrow> error + ImagePtr list" where
  \<comment> \<open>\<^verbatim>\<open>sizes.at(i) = v\<close>: \<^verbatim>\<open>std::array::at\<close> throws \<^verbatim>\<open>std::out_of_range\<close>\<close>
  "array_at_put sizes i v = (if i < length sizes then Inr (sizes[i := v]) else Inl OutOfRange)"

subsection \<open>The variant selector: createImageSet\<close>

definition targetFormat :: "bool \<Rightarrow> QJsonArray \<Rightarrow> string" where
  "targetFormat allowAvif files =
     (if \<not> allowAvif \<or> files = [] then ''WEBP''
      else
        let first = toString (jindex (jat files 0) ''format'') in
        if length files < 2 then first
        else
          let second = toString (jindex (jat files 1) ''format'') in
          if first = ''AVIF'' \<or> second = ''AVIF'' then ''AVIF'' else ''WEBP'')"

text \<open>
  The loop over the files. Its state is the array \<^verbatim>\<open>sizes\<close>, \<^verbatim>\<open>baseWidth\<close> and
  \<^verbatim>\<open>nextSize\<close>; the first equation is the end of the list, the first test of the second
  the \<^verbatim>\<open>break\<close>, the second test the \<^verbatim>\<open>continue\<close>.
\<close>

fun fileLoop ::
  "string \<Rightarrow> string \<Rightarrow> QJsonArray \<Rightarrow> ImagePtr list \<times> rat \<times> nat \<Rightarrow>
   error + (ImagePtr list \<times> rat \<times> nat)" where
  "fileLoop baseUrl target [] st = Inr st"
| "fileLoop baseUrl target (fileItem # rest) (sizes, baseWidth, nextSize) =
     (if nextSize \<ge> length sizes then Inr (sizes, baseWidth, nextSize)
      else
        let file = toObject fileItem in
        if toString (jvalue file ''format'') \<noteq> target
        then fileLoop baseUrl target rest (sizes, baseWidth, nextSize)
        else
          let width = toDouble (jvalue file ''width'');
              scale = (if baseWidth > 0 then ddiv baseWidth width else Finite 1);
              baseWidth' = (if baseWidth > 0 then baseWidth else width);
              image = Image (''https:'' @ baseUrl @ ''/'' @ toString (jvalue file ''name''))
                        scale (static_cast_int width, toInt 16 (jvalue file ''height''))
          in case array_at_put sizes nextSize (Some image) of
               Inl e \<Rightarrow> Inl e
             | Inr sizes' \<Rightarrow> fileLoop baseUrl target rest (sizes', baseWidth', nextSize + 1))"

text \<open>The padding loop \<^verbatim>\<open>for (; nextSize < sizes.size(); nextSize++)\<close>.\<close>

function padLoop :: "ImagePtr list \<Rightarrow> nat \<Rightarrow> error + ImagePtr list" where
  "padLoop sizes nextSize =
     (if nextSize < length sizes
      then (case array_at_put sizes nextSize (Some EmptyImage) of
              Inl e \<Rightarrow> Inl e
            | Inr sizes' \<Rightarrow> padLoop sizes' (nextSize + 1))
      else Inr sizes)"
  by pat_completeness auto
termination
  by (relation "measure (\<lambda>(sizes, nextSize). length sizes - nextSize)")
     (auto simp: array_at_put_def split: if_splits)

declare padLoop.simps [simp del]

definition resolveLargest :: "ImagePtr list \<Rightarrow> error + ImageSet" where
  \<comment> \<open>the end of \<^verbatim>\<open>createImageSet\<close>: prefer \<^verbatim>\<open>sizes[3]\<close>, fall back to \<^verbatim>\<open>sizes[2]\<close>.
      The array has four elements, so the constant indices are in range.\<close>
  "resolveLargest sizes =
     (let largest = sizes ! 3 in
      case (if largest = None then Inr True else isEmpty largest) of
        Inl e \<Rightarrow> Inl e
      | Inr fallback \<Rightarrow>
          Inr \<lparr>imageX1 = sizes ! 0, imageX2 = sizes ! 1,
               imageX3 = (if fallback then sizes ! 2 else largest)\<rparr>)"

definition createImageSet :: "Settings \<Rightarrow> QJsonObject \<Rightarrow> error + ImageSet" where
  "createImageSet cfg emoteData =
     (let host = toObject (jvalue emoteData ''host'');
          baseUrl = toString (jvalue host ''url'');
          files = toArray (jvalue host ''files'');
          target = targetFormat (allowAvifImages cfg) files
      in case fileLoop baseUrl target files ([None, None, None, None], 0, 0) of
           Inl e \<Rightarrow> Inl e
         | Inr (sizes, baseWidth, nextSize) \<Rightarrow>
             if nextSize < length sizes then
               (if nextSize = 0 then Inr ImageSet_default
                else case padLoop sizes nextSize of
                       Inl e \<Rightarrow> Inl e
                     | Inr sizes' \<Rightarrow> resolveLargest sizes')
             else resolveLargest sizes)"

subsection \<open>Emote records\<close>

text \<open>
  The structure \<^verbatim>\<open>Emote\<close> (declared in \<^verbatim>\<open>messages/Emote.hpp\<close>), with its fields in the
  order of the aggregate initialisations of \<^verbatim>\<open>createEmote\<close> and
  \<^verbatim>\<open>createUpdatedEmote\<close>. The field \<^verbatim>\<open>id\<close> is written \<open>emote_id\<close>, since \<open>id\<close> is the
  identity function of HOL.
\<close>

record Emote =
  name :: string
  images :: ImageSet
  tooltip :: string
  homePage :: string
  zeroWidth :: bool
  emote_id :: string
  author :: string
  baseName :: "string option"

text \<open>
  The structure \<^verbatim>\<open>CreateEmoteResult\<close>; its fields \<^verbatim>\<open>id\<close> and \<^verbatim>\<open>name\<close> are written
  \<open>result_id\<close> and \<open>result_name\<close>.
\<close>

record CreateEmoteResult =
  emote :: Emote
  result_id :: string
  result_name :: string
  hasImages :: bool

definition isZeroWidthActive :: "Settings \<Rightarrow> QJsonObject \<Rightarrow> bool" where
  "isZeroWidthActive cfg activeEmote = hasZeroWidth cfg (toInt 0 (jvalue activeEmote ''flags''))"

fun kindToString :: "SeventvEmoteSetKind \<Rightarrow> string" where
  "kindToString Global = ''Global''"
| "kindToString Personal = ''Personal''"
| "kindToString Channel = ''Channel''"

definition createTooltip :: "string \<Rightarrow> string \<Rightarrow> SeventvEmoteSetKind \<Rightarrow> string" where
  "createTooltip nm auth kind =
     nm @ ''<br>'' @ kindToString kind @ '' 7TV Emote<br>By: '' @
     (if auth = [] then ''<deleted>'' else auth)"

definition createAliasedTooltip ::
  "string \<Rightarrow> string \<Rightarrow> string \<Rightarrow> SeventvEmoteSetKind \<Rightarrow> string" where
  "createAliasedTooltip nm base auth kind =
     nm @ ''<br>Alias of '' @ base @ ''<br>'' @ kindToString kind @ '' 7TV Emote<br>By: '' @
     (if auth = [] then ''<deleted>'' else auth)"

text \<open>
  Modelled from the spec: \<^verbatim>\<open>makeConditionedOptional\<close> is defined in \<^verbatim>\<open>util/Helpers.hpp\<close>,
  which is not among the sources. By sections 4.3 and 4.4 of the specification the base
  name is present exactly when the record is an alias: the helper returns the value when
  the condition holds and \<^verbatim>\<open>std::nullopt\<close> otherwise.
\<close>

definition makeConditionedOptional :: "bool \<Rightarrow> 'a \<Rightarrow> 'a option" where
  "makeConditionedOptional c v = (if c then Some v else None)"

definition EMOTE_LINK_FORMAT :: "string \<Rightarrow> string" where
  "EMOTE_LINK_FORMAT arg = ''https://7tv.app/emotes/'' @ arg"

definition createEmote ::
  "Settings \<Rightarrow> QJsonObject \<Rightarrow> QJsonObject \<Rightarrow> SeventvEmoteSetKind \<Rightarrow> error + CreateEmoteResult"
  where
  "createEmote cfg activeEmote emoteData kind =
     (let emoteId = toString (jvalue activeEmote ''id'');
          emoteName = toString (jvalue activeEmote ''name'');
          auth = toString (jvalue (toObject (jvalue emoteData ''owner'')) ''display_name'');
          baseEmoteName = toString (jvalue emoteData ''name'');
          zw = isZeroWidthActive cfg activeEmote;
          aliasedName = (emoteName \<noteq> baseEmoteName);
          tip = (if aliasedName then createAliasedTooltip emoteName baseEmoteName auth kind
                 else createTooltip emoteName auth kind)
      in case createImageSet cfg emoteData of
           Inl e \<Rightarrow> Inl e
         | Inr imageSet \<Rightarrow>
             (let em = \<lparr>name = emoteName, images = imageSet, tooltip = tip,
                        homePage = EMOTE_LINK_FORMAT emoteId, zeroWidth = zw,
                        emote_id = emoteId, author = auth,
                        baseName = makeConditionedOptional aliasedName baseEmoteName\<rparr>
              in (case isEmpty (imageX1 (images em)) of
                    Inl e \<Rightarrow> Inl e
                  | Inr noImage \<Rightarrow>
                      Inr \<lparr>emote = em, result_id = emoteId, result_name = emoteName,
                           hasImages = \<not> noImage\<rparr>)))"

definition checkEmoteVisibility :: "Settings \<Rightarrow> QJsonObject \<Rightarrow> SeventvEmoteSetKind \<Rightarrow> bool" where
  "checkEmoteVisibility cfg emoteData kind =
     (if \<not> toBool (jvalue emoteData ''listed'') \<and> \<not> showUnlistedSevenTVEmotes cfg then False
      else if kind = Personal \<and>
              JString ''PERSONAL'' \<notin> set (toArray (jvalue emoteData ''state'')) then False
      else \<not> hasContentTwitchDisallowed cfg (toInt 0 (jvalue emoteData ''flags'')))"

subsection \<open>Shared pointers, the allocator and the intern cache\<close>

text \<open>
  A \<^verbatim>\<open>std::shared_ptr<const Emote>\<close> that is not null is a pair of the address of the
  object and the object, which never changes after its construction. The set \<open>live\<close> of
  a world holds the addresses of the objects that still have a strong owner;
  \<^verbatim>\<open>std::make_shared\<close> takes the next address, which was never used before.
\<close>

datatype EmotePtr = EmotePtr (addr: nat) (obj: Emote)

type_synonym EmoteMap = "(string \<times> EmotePtr) list"

datatype MapPtr = MapPtr (map_addr: nat) (map_obj: EmoteMap)

record World =
  next_addr :: nat
  live :: "nat set"
  cache :: "string \<Rightarrow> EmotePtr option"

definition make_shared_Emote :: "Emote \<Rightarrow> World \<Rightarrow> EmotePtr \<times> World" where
  "make_shared_Emote e w =
     (EmotePtr (next_addr w) e,
      w\<lparr>next_addr := Suc (next_addr w), live := insert (next_addr w) (live w)\<rparr>)"

definition make_shared_EmoteMap :: "EmoteMap \<Rightarrow> World \<Rightarrow> MapPtr \<times> World" where
  "make_shared_EmoteMap m w =
     (MapPtr (next_addr w) m,
      w\<lparr>next_addr := Suc (next_addr w), live := insert (next_addr w) (live w)\<rparr>)"

definition weak_lock :: "World \<Rightarrow> EmotePtr option \<Rightarrow> EmotePtr option" where
  \<comment> \<open>\<^verbatim>\<open>std::weak_ptr::lock\<close>: the pointer while the object has a strong owner, null after\<close>
  "weak_lock w e = (case e of None \<Rightarrow> None | Some p \<Rightarrow> if addr p \<in> live w then Some p else None)"

text \<open>
  Modelled from the spec: \<^verbatim>\<open>cachedOrMakeEmotePtr\<close> is defined in
  \<^verbatim>\<open>messages/Emote.cpp\<close>, which is not among the sources. The definition follows
  section 4.2 of the specification (\<^verbatim>\<open>internOrCreate\<close>): a live entry for the identifier
  is returned and the candidate is ignored, even if its fields differ; with no live entry
  the candidate is allocated, stored weakly under the identifier and returned.
\<close>

definition cachedOrMakeEmotePtr :: "Emote \<Rightarrow> string \<Rightarrow> World \<Rightarrow> EmotePtr \<times> World" where
  "cachedOrMakeEmotePtr e ident w =
     (case weak_lock w (cache w ident) of
        Some shared \<Rightarrow> (shared, w)
      | None \<Rightarrow>
          (case make_shared_Emote e w of
             (shared, w') \<Rightarrow> (shared, w'\<lparr>cache := (cache w')(ident \<mapsto> shared)\<rparr>)))"

definition cachedOrMake :: "Emote \<Rightarrow> string \<Rightarrow> World \<Rightarrow> EmotePtr \<times> World" where
  \<comment> \<open>the function-local static cache is the field \<open>cache\<close> of the world\<close>
  "cachedOrMake e ident w = cachedOrMakeEmotePtr e ident w"

subsection \<open>createUpdatedEmote\<close>

record EmoteUpdateDispatch =
  emoteID :: string
  emoteName :: string

text \<open>
  \<^verbatim>\<open>EmoteRemoveDispatch\<close> has the same two fields among those the code reads.
\<close>

type_synonym EmoteRemoveDispatch = EmoteUpdateDispatch

record EmoteAddDispatch =
  emoteJson :: QJsonObject

definition createUpdatedEmote ::
  "EmotePtr \<Rightarrow> EmoteUpdateDispatch \<Rightarrow> SeventvEmoteSetKind \<Rightarrow> World \<Rightarrow> EmotePtr \<times> World" where
  "createUpdatedEmote oldEmote dispatch kind w =
     (let toNonAliased =
            (case baseName (obj oldEmote) of
               None \<Rightarrow> False
             | Some b \<Rightarrow> emoteName dispatch = b);
          base = (case baseName (obj oldEmote) of None \<Rightarrow> name (obj oldEmote) | Some b \<Rightarrow> b)
      in make_shared_Emote
           \<lparr>name = emoteName dispatch, images = images (obj oldEmote),
            tooltip =
              (if toNonAliased
               then createTooltip (emoteName dispatch) (author (obj oldEmote)) kind
               else createAliasedTooltip (emoteName dispatch) base (author (obj oldEmote)) kind),
            homePage = homePage (obj oldEmote), zeroWidth = zeroWidth (obj oldEmote),
            emote_id = emote_id (obj oldEmote), author = author (obj oldEmote),
            baseName = makeConditionedOptional (\<not> toNonAliased) base\<rparr> w)"

subsection \<open>The batch builder: parseEmotes\<close>

text \<open>
  An \<^verbatim>\<open>EmoteMap\<close> (a \<^verbatim>\<open>std::unordered_map\<close> from names to pointers) is an association
  list: \<^verbatim>\<open>m[k] = v\<close> is \<open>AList.update\<close>, \<^verbatim>\<open>m.erase(k)\<close> is \<open>AList.delete\<close> and
  \<^verbatim>\<open>m.find(k)\<close> is \<open>map_of\<close>. The order of the list stands for the unspecified iteration
  order of the hash table; the theorems hold for every order.
\<close>

text \<open>
  The builder is the only owner of a record that it has allocated itself, so the
  assignment \<^verbatim>\<open>emotes[result.name] = ptr\<close> destroys the record it overwrites unless
  that record is stored under another name too, or is the record assigned, or has an
  owner outside the build. The owners outside the build are those of the objects that
  are alive when the build starts (\<open>held\<close>); they keep them during the build.
\<close>

definition map_assign ::
  "nat set \<Rightarrow> string \<Rightarrow> EmotePtr \<Rightarrow> EmoteMap \<Rightarrow> World \<Rightarrow> EmoteMap \<times> World" where
  "map_assign held k ptr emotes w =
     (let emotes' = AList.update k ptr emotes
      in (emotes',
          case map_of emotes k of
            None \<Rightarrow> w
          | Some old \<Rightarrow>
              if addr old \<in> held \<or> addr old \<in> addr ` snd ` set emotes' then w
              else w\<lparr>live := live w - {addr old}\<rparr>))"

fun parseLoop ::
  "Settings \<Rightarrow> SeventvEmoteSetKind \<Rightarrow> nat set \<Rightarrow> QJsonArray \<Rightarrow> EmoteMap \<times> World \<Rightarrow>
   error + (EmoteMap \<times> World)" where
  "parseLoop cfg kind held [] st = Inr st"
| "parseLoop cfg kind held (activeEmoteJson # rest) (emotes, w) =
     (let activeEmote = toObject activeEmoteJson;
          emoteData = toObject (jvalue activeEmote ''data'')
      in if emoteData = [] \<or> \<not> checkEmoteVisibility cfg emoteData kind
         then parseLoop cfg kind held rest (emotes, w)
         else
           case createEmote cfg activeEmote emoteData kind of
             Inl e \<Rightarrow> Inl e
           | Inr result \<Rightarrow>
               if \<not> hasImages result then parseLoop cfg kind held rest (emotes, w)
               else
                 case cachedOrMake (emote result) (result_id result) w of
                   (ptr, w') \<Rightarrow>
                     parseLoop cfg kind held rest
                       (map_assign held (result_name result) ptr emotes w'))"

definition parseEmotes ::
  "Settings \<Rightarrow> QJsonArray \<Rightarrow> SeventvEmoteSetKind \<Rightarrow> World \<Rightarrow> error + (EmoteMap \<times> World)" where
  "parseEmotes cfg emoteSetEmotes kind w = parseLoop cfg kind (live w) emoteSetEmotes ([], w)"

subsection \<open>The incremental operations\<close>

text \<open>
  Modelled from the spec: \<^verbatim>\<open>EmoteMap::findEmote\<close> is defined in \<^verbatim>\<open>messages/Emote.cpp\<close>,
  which is not among the sources. Following section 4.4 of the specification it locates
  a record by its display name or, failing that, by its identifier. The result is an
  iterator: an entry of the map, or \<open>None\<close> for \<^verbatim>\<open>end()\<close>.
\<close>

definition findEmote :: "EmoteMap \<Rightarrow> string \<Rightarrow> string \<Rightarrow> (string \<times> EmotePtr) option" where
  "findEmote m emoteNameHint ident =
     (case map_of m emoteNameHint of
        Some p \<Rightarrow> Some (emoteNameHint, p)
      | None \<Rightarrow> List.find (\<lambda>entry. emote_id (obj (snd entry)) = ident) m)"

text \<open>
  The cell \<^verbatim>\<open>Atomic<std::shared_ptr<const EmoteMap>>\<close> is passed in and returned; it always
  holds a collection (the constructor stores an empty one). Each operation returns the
  optional pointer of the source, the cell and the world.
\<close>

definition addEmote ::
  "Settings \<Rightarrow> MapPtr \<Rightarrow> EmoteAddDispatch \<Rightarrow> SeventvEmoteSetKind \<Rightarrow> World \<Rightarrow>
   error + (EmotePtr option \<times> MapPtr \<times> World)" where
  "addEmote cfg cell dispatch kind w =
     (let emoteData = toObject (jvalue (emoteJson dispatch) ''data'')
      in if emoteData = [] \<or> \<not> checkEmoteVisibility cfg emoteData kind
         then Inr (None, cell, w)
         else
           let updatedMap = map_obj cell in
           case createEmote cfg (emoteJson dispatch) emoteData kind of
             Inl e \<Rightarrow> Inl e
           | Inr result \<Rightarrow>
               if \<not> hasImages result then Inr (None, cell, w)
               else
                 case make_shared_Emote (emote result) w of
                   (em, w1) \<Rightarrow>
                     (case make_shared_EmoteMap (AList.update (result_name result) em updatedMap) w1
                      of (cell', w2) \<Rightarrow> Inr (Some em, cell', w2)))"

definition updateEmote ::
  "MapPtr \<Rightarrow> EmoteUpdateDispatch \<Rightarrow> SeventvEmoteSetKind \<Rightarrow> World \<Rightarrow>
   error + (EmotePtr option \<times> MapPtr \<times> World)" where
  "updateEmote cell dispatch kind w =
     (let oldMap = map_obj cell in
      case findEmote oldMap (emoteName dispatch) (emoteID dispatch) of
        None \<Rightarrow> Inr (None, cell, w)
      | Some oldEmote \<Rightarrow>
          let updatedMap = AList.delete (name (obj (snd oldEmote))) (map_obj cell) in
          case createUpdatedEmote (snd oldEmote) dispatch kind w of
            (em, w1) \<Rightarrow>
              (case make_shared_EmoteMap (AList.update (name (obj em)) em updatedMap) w1 of
                 (cell', w2) \<Rightarrow> Inr (Some em, cell', w2)))"

definition removeEmote ::
  "MapPtr \<Rightarrow> EmoteRemoveDispatch \<Rightarrow> World \<Rightarrow> error + (EmotePtr option \<times> MapPtr \<times> World)" where
  "removeEmote cell dispatch w =
     (let updatedMap = map_obj cell in
      case findEmote updatedMap (emoteName dispatch) (emoteID dispatch) of
        None \<Rightarrow> Inr (None, cell, w)
      | Some it \<Rightarrow>
          let em = snd it in
          case make_shared_EmoteMap (AList.delete (fst it) updatedMap) w of
            (cell', w') \<Rightarrow> Inr (Some em, cell', w'))"

section \<open>Notions used in the statements\<close>

text \<open>
  The fields of a file entry as the loop of \<^verbatim>\<open>createImageSet\<close> reads them, the files of
  the host object, and those of them whose format is the chosen one.
\<close>

definition fileFormat :: "json \<Rightarrow> string" where
  "fileFormat f = toString (jvalue (toObject f) ''format'')"

definition fileWidth :: "json \<Rightarrow> rat" where
  "fileWidth f = toDouble (jvalue (toObject f) ''width'')"

definition matchingFiles :: "string \<Rightarrow> QJsonArray \<Rightarrow> QJsonArray" where
  "matchingFiles target files = filter (\<lambda>f. fileFormat f = target) files"

definition fileUrl :: "string \<Rightarrow> json \<Rightarrow> string" where
  "fileUrl baseUrl f = ''https:'' @ baseUrl @ ''/'' @ toString (jvalue (toObject f) ''name'')"

definition fileDims :: "json \<Rightarrow> int \<times> int" where
  "fileDims f = (static_cast_int (fileWidth f), toInt 16 (jvalue (toObject f) ''height''))"

definition slotScale :: "ImagePtr \<Rightarrow> qreal option" where
  "slotScale p = (case p of Some (Image u s d) \<Rightarrow> Some s | _ \<Rightarrow> None)"

definition hostFiles :: "QJsonObject \<Rightarrow> QJsonArray" where
  "hostFiles emoteData = toArray (jvalue (toObject (jvalue emoteData ''host'')) ''files'')"

definition chosenFiles :: "Settings \<Rightarrow> QJsonObject \<Rightarrow> QJsonArray" where
  "chosenFiles cfg emoteData =
     matchingFiles (targetFormat (allowAvifImages cfg) (hostFiles emoteData)) (hostFiles emoteData)"

definition hostUrl :: "QJsonObject \<Rightarrow> string" where
  "hostUrl emoteData = toString (jvalue (toObject (jvalue emoteData ''host'')) ''url'')"

text \<open>
  The fields of a batch entry as \<^verbatim>\<open>parseEmotes\<close> and \<^verbatim>\<open>createEmote\<close> read them. An
  entry is accepted when the loop of \<^verbatim>\<open>parseEmotes\<close> reaches the insertion: its metadata
  is not empty, it passes \<^verbatim>\<open>checkEmoteVisibility\<close>, and a file of the chosen format
  exists (which is when \<^verbatim>\<open>createEmote\<close> reports \<^verbatim>\<open>hasImages\<close>, see
  \<open>createEmote_total\<close>).
\<close>

definition entryData :: "json \<Rightarrow> QJsonObject" where
  "entryData e = toObject (jvalue (toObject e) ''data'')"

definition entryName :: "json \<Rightarrow> string" where
  "entryName e = toString (jvalue (toObject e) ''name'')"

definition entryId :: "json \<Rightarrow> string" where
  "entryId e = toString (jvalue (toObject e) ''id'')"

definition entryAccepted :: "Settings \<Rightarrow> SeventvEmoteSetKind \<Rightarrow> json \<Rightarrow> bool" where
  "entryAccepted cfg kind e =
     (entryData e \<noteq> [] \<and> checkEmoteVisibility cfg (entryData e) kind \<and>
      chosenFiles cfg (entryData e) \<noteq> [])"

text \<open>
  The invariant of a collection (every record is stored under its own name), and a
  record whose 1x image is a real image.
\<close>

definition keyedByName :: "EmoteMap \<Rightarrow> bool" where
  "keyedByName m = (\<forall>(k, p) \<in> set m. name (obj p) = k)"

definition hasPrimaryImage :: "Emote \<Rightarrow> bool" where
  "hasPrimaryImage e = (\<exists>i. imageX1 (images e) = Some i \<and> i \<noteq> EmptyImage)"

text \<open>
  The worlds the program can reach. The allocator never hands out an address twice, so
  every live address and every address in the cache is below \<open>next_addr\<close>. The only
  call of \<^verbatim>\<open>cachedOrMake\<close> is the one of \<^verbatim>\<open>parseEmotes\<close>, which passes a record with a
  1x image together with that record's identifier.

  A step of the world is a call of \<^verbatim>\<open>cachedOrMake\<close> of that kind, an allocation by
  \<^verbatim>\<open>std::make_shared\<close>, or the release of an object by its last strong owner, which
  happens in a build that overwrites a record of its own and may happen at any time
  between two operations.
\<close>

definition world_ok :: "World \<Rightarrow> bool" where
  "world_ok w =
     ((\<forall>a\<in>live w. a < next_addr w) \<and>
      (\<forall>i p. cache w i = Some p \<longrightarrow>
         addr p < next_addr w \<and> emote_id (obj p) = i \<and> hasPrimaryImage (obj p)))"

definition empty_world :: World where
  "empty_world = \<lparr>next_addr = 0, live = {}, cache = (\<lambda>i. None)\<rparr>"

inductive world_step :: "World \<Rightarrow> World \<Rightarrow> bool" where
  intern: "emote_id e = i \<Longrightarrow> hasPrimaryImage e \<Longrightarrow> world_step w (snd (cachedOrMake e i w))"
| alloc:
    "world_step w
       (w\<lparr>next_addr := Suc (next_addr w), live := insert (next_addr w) (live w)\<rparr>)"
| release: "world_step w (w\<lparr>live := live w - {a}\<rparr>)"


text \<open>The pointer an incremental operation returns (\<open>None\<close> for \<^verbatim>\<open>std::nullopt\<close>).\<close>

definition returned :: "error + (EmotePtr option \<times> MapPtr \<times> World) \<Rightarrow> EmotePtr option" where
  "returned r = (case r of Inr (p, c, w) \<Rightarrow> p | Inl e \<Rightarrow> None)"

section \<open>Example inputs\<close>

text \<open>
  A settings object with next-gen images disabled and unlisted emotes hidden, whose flag
  tests read bit 0 (zero-width) and bit 24 (disallowed on the platform), and builders of
  file entries and of emote metadata.
\<close>

definition example_cfg :: Settings where
  "example_cfg =
     \<lparr>allowAvifImages = False, showUnlistedSevenTVEmotes = False,
      hasZeroWidth = (\<lambda>n. odd n),
      hasContentTwitchDisallowed = (\<lambda>n. odd (n div 16777216))\<rparr>"

definition example_file :: "string \<Rightarrow> string \<Rightarrow> rat \<Rightarrow> json" where
  "example_file fmt nm w =
     JObject [(''format'', JString fmt), (''name'', JString nm), (''width'', JDouble w)]"

definition example_data :: "json list \<Rightarrow> QJsonObject" where
  "example_data files =
     [(''name'', JString ''poggers''), (''listed'', JBool True),
      (''host'', JObject [(''url'', JString ''//cdn''), (''files'', JArray files)])]"

definition example_files3 :: "json list" where
  "example_files3 =
     [example_file ''WEBP'' ''1x.webp'' 1, example_file ''WEBP'' ''2x.webp'' 2,
      example_file ''WEBP'' ''3x.webp'' 3]"

text \<open>
  A batch entry with the example metadata (base name \<open>poggers\<close>, three WEBP files), the
  record \<^verbatim>\<open>createEmote\<close> builds from it, and collections holding such records.
\<close>

definition example_images :: ImageSet where
  "example_images =
     \<lparr>imageX1 = Some (Image ''https://cdn/1x.webp'' (Finite 1) (1, 16)),
      imageX2 = Some (Image ''https://cdn/2x.webp'' (Quotient 1 2) (2, 16)),
      imageX3 = Some (Image ''https://cdn/3x.webp'' (Quotient 1 3) (3, 16))\<rparr>"

definition example_entry :: "string \<Rightarrow> string \<Rightarrow> json" where
  "example_entry ident nm =
     JObject [(''id'', JString ident), (''name'', JString nm),
              (''data'', JObject (example_data example_files3))]"

definition example_emote :: "string \<Rightarrow> string \<Rightarrow> SeventvEmoteSetKind \<Rightarrow> Emote" where
  "example_emote ident nm kind =
     \<lparr>name = nm, images = example_images,
      tooltip = (if nm = ''poggers'' then createTooltip nm [] kind
                 else createAliasedTooltip nm ''poggers'' [] kind),
      homePage = ''https://7tv.app/emotes/'' @ ident, zeroWidth = False, emote_id = ident,
      author = [], baseName = (if nm = ''poggers'' then None else Some ''poggers'')\<rparr>"

definition example_cell :: MapPtr where
  "example_cell = MapPtr 0 []"

definition example_world :: World where
  "example_world = \<lparr>next_addr = 1, live = {0}, cache = (\<lambda>i. None)\<rparr>"

definition example_map2 :: EmoteMap where
  "example_map2 =
     [(''pog'', EmotePtr 1 (example_emote ''1'' ''pog'' Channel)),
      (''kek'', EmotePtr 3 (example_emote ''2'' ''kek'' Channel))]"

definition example_cell2 :: MapPtr where
  "example_cell2 = MapPtr 4 example_map2"

definition example_world2 :: World where
  "example_world2 = \<lparr>next_addr = 5, live = {0, 1, 2, 3, 4}, cache = (\<lambda>i. None)\<rparr>"

text \<open>
  Entries that the batch builder skips (no metadata, unlisted, a file list that is not
  an array), and a batch that mixes them with two entries it accepts.
\<close>

definition example_unlisted :: json where
  "example_unlisted =
     JObject [(''id'', JString ''3''), (''name'', JString ''hid''),
              (''data'', JObject [(''name'', JString ''hid''), (''listed'', JBool False),
                 (''host'', JObject [(''url'', JString ''//cdn''),
                                     (''files'', JArray example_files3)])])]"

definition example_bad_files :: json where
  "example_bad_files =
     JObject [(''id'', JString ''4''), (''name'', JString ''bad''),
              (''data'', JObject [(''name'', JString ''bad''), (''listed'', JBool True),
                 (''host'', JObject [(''url'', JString ''//cdn''),
                                     (''files'', JString ''1x.webp'')])])]"

definition example_batch :: "json list" where
  "example_batch =
     [example_entry ''1'' ''pog'', JNull, example_unlisted, example_bad_files,
      example_entry ''2'' ''kek'']"

section \<open>The variant selector\<close>

lemmas json_simps =
  toObject_def toArray_def toString_def toBool_def toDouble_def toInt_def jvalue_def jat_def
  jindex_def INT_MIN_def INT_MAX_def

lemmas example_simps = example_cfg_def example_file_def example_data_def

lemma matchingFiles_Nil [simp]: "matchingFiles target [] = []"
  by (simp add: matchingFiles_def)

lemma matchingFiles_Cons:
  "matchingFiles target (f # fs) =
     (if fileFormat f = target then f # matchingFiles target fs else matchingFiles target fs)"
  by (simp add: matchingFiles_def)

lemma fileLoop_full:
  "length sizes \<le> k \<Longrightarrow> fileLoop baseUrl target files (sizes, bw, k) = Inr (sizes, bw, k)"
  by (cases files) simp_all

text \<open>
  The loop fills the slots from \<open>k\<close> on with the matching files, in their order, up to
  the size of the array, and leaves the other slots alone.
\<close>

lemma fileLoop_slots:
  "k \<le> length sizes \<Longrightarrow>
   \<exists>sizes' bw'.
     fileLoop baseUrl target files (sizes, bw, k) =
       Inr (sizes', bw', min (length sizes) (k + length (matchingFiles target files))) \<and>
     length sizes' = length sizes \<and>
     (\<forall>i<k. sizes' ! i = sizes ! i) \<and>
     (\<forall>i. min (length sizes) (k + length (matchingFiles target files)) \<le> i \<longrightarrow>
          sizes' ! i = sizes ! i) \<and>
     (\<forall>i. k \<le> i \<and> i < min (length sizes) (k + length (matchingFiles target files)) \<longrightarrow>
          (\<exists>s. sizes' ! i =
                 Some (Image (fileUrl baseUrl (matchingFiles target files ! (i - k))) s
                         (fileDims (matchingFiles target files ! (i - k))))))"
proof (induction files arbitrary: sizes bw k)
  case Nil
  then show ?case by auto
next
  case (Cons f fs)
  show ?case
  proof (cases "length sizes \<le> k")
    case True
    with Cons.prems have "k = length sizes" by simp
    then show ?thesis by (auto simp: fileLoop_full)
  next
    case False
    then have klt: "k < length sizes" by simp
    show ?thesis
    proof (cases "fileFormat f = target")
      case nm: False
      from Cons.IH [OF Cons.prems, of bw] nm klt show ?thesis
        by (simp add: matchingFiles_Cons fileFormat_def Let_def)
    next
      case m: True
      define img where "img = Image (''https:'' @ baseUrl @ ''/'' @ toString (jvalue (toObject f) ''name''))
          (if bw > 0 then ddiv bw (fileWidth f) else Finite 1)
          (static_cast_int (fileWidth f), toInt 16 (jvalue (toObject f) ''height''))"
      define bw1 where "bw1 = (if bw > 0 then bw else fileWidth f)"
      have step: "fileLoop baseUrl target (f # fs) (sizes, bw, k) =
          fileLoop baseUrl target fs (sizes[k := Some img], bw1, Suc k)"
        using m klt by (simp add: fileFormat_def fileWidth_def Let_def array_at_put_def img_def bw1_def)
      have "Suc k \<le> length (sizes[k := Some img])" using klt by simp
      from Cons.IH [OF this, of bw1]
      obtain sizes' bw' where
        r: "fileLoop baseUrl target fs (sizes[k := Some img], bw1, Suc k) =
              Inr (sizes', bw', min (length sizes) (Suc k + length (matchingFiles target fs)))"
        and l: "length sizes' = length sizes"
        and lo: "\<forall>i<Suc k. sizes' ! i = sizes[k := Some img] ! i"
        and hi: "\<forall>i. min (length sizes) (Suc k + length (matchingFiles target fs)) \<le> i \<longrightarrow>
                  sizes' ! i = sizes[k := Some img] ! i"
        and mid: "\<forall>i. Suc k \<le> i \<and> i < min (length sizes) (Suc k + length (matchingFiles target fs)) \<longrightarrow>
                  (\<exists>s. sizes' ! i =
                     Some (Image (fileUrl baseUrl (matchingFiles target fs ! (i - Suc k))) s
                             (fileDims (matchingFiles target fs ! (i - Suc k)))))"
        by auto
      have k': "sizes' ! k = Some img" using lo klt by simp
      have mid': "\<forall>i. k \<le> i \<and> i < min (length sizes) (Suc k + length (matchingFiles target fs)) \<longrightarrow>
                  (\<exists>s. sizes' ! i =
                     Some (Image (fileUrl baseUrl ((f # matchingFiles target fs) ! (i - k))) s
                             (fileDims ((f # matchingFiles target fs) ! (i - k)))))"
      proof (intro allI impI)
        fix i assume a: "k \<le> i \<and> i < min (length sizes) (Suc k + length (matchingFiles target fs))"
        show "\<exists>s. sizes' ! i =
                     Some (Image (fileUrl baseUrl ((f # matchingFiles target fs) ! (i - k))) s
                             (fileDims ((f # matchingFiles target fs) ! (i - k))))"
        proof (cases "i = k")
          case True then show ?thesis using k' by (simp add: img_def fileUrl_def fileDims_def)
        next
          case False
          with a have "Suc k \<le> i" by simp
          then show ?thesis using a mid by (auto simp: Suc_diff_le)
        qed
      qed
      show ?thesis
        unfolding step using r l lo hi mid' m klt
        by (simp add: matchingFiles_Cons)
    qed
  qed
qed

lemma fileLoop_scales_pos:
  "0 < bw \<Longrightarrow> k \<le> length sizes \<Longrightarrow>
   fileLoop baseUrl target files (sizes, bw, k) = Inr (sizes', bw', k') \<Longrightarrow>
   k \<le> i \<Longrightarrow> i < k' \<Longrightarrow>
   slotScale (sizes' ! i) = Some (ddiv bw (fileWidth (matchingFiles target files ! (i - k))))"
proof (induction files arbitrary: sizes k)
  case Nil
  then show ?case by simp
next
  case (Cons f fs)
  show ?case
  proof (cases "length sizes \<le> k")
    case True
    with Cons.prems show ?thesis by (simp add: fileLoop_full)
  next
    case False
    then have klt: "k < length sizes" by simp
    show ?thesis
    proof (cases "fileFormat f = target")
      case nm: False
      with Cons.prems klt
      have "fileLoop baseUrl target fs (sizes, bw, k) = Inr (sizes', bw', k')"
        by (simp add: fileFormat_def Let_def)
      from Cons.IH [OF Cons.prems(1,2) this Cons.prems(4,5)] nm show ?thesis
        by (simp add: matchingFiles_Cons)
    next
      case m: True
      define img where "img = Image (''https:'' @ baseUrl @ ''/'' @ toString (jvalue (toObject f) ''name''))
          (ddiv bw (fileWidth f))
          (static_cast_int (fileWidth f), toInt 16 (jvalue (toObject f) ''height''))"
      have step: "fileLoop baseUrl target fs (sizes[k := Some img], bw, Suc k) = Inr (sizes', bw', k')"
        using m klt Cons.prems(1,3)
        by (simp add: fileFormat_def fileWidth_def Let_def array_at_put_def img_def)
      have len: "Suc k \<le> length (sizes[k := Some img])" using klt by simp
      show ?thesis
      proof (cases "i = k")
        case True
        from fileLoop_slots [OF len, of baseUrl target fs bw] step
        have "sizes' ! k = sizes[k := Some img] ! k" by auto
        then show ?thesis using True klt m
          by (simp add: matchingFiles_Cons slotScale_def img_def)
      next
        case False
        with Cons.prems(4) have ki: "Suc k \<le> i" by simp
        from Cons.IH [OF Cons.prems(1) len step ki Cons.prems(5)] ki m show ?thesis
          by (simp add: matchingFiles_Cons Suc_diff_le)
      qed
    qed
  qed
qed

lemma fileLoop_scales_first:
  "bw \<le> 0 \<Longrightarrow> k < length sizes \<Longrightarrow>
   fileLoop baseUrl target files (sizes, bw, k) = Inr (sizes', bw', k') \<Longrightarrow>
   matchingFiles target files \<noteq> [] \<Longrightarrow>
   slotScale (sizes' ! k) = Some (Finite 1) \<and>
   (0 < fileWidth (matchingFiles target files ! 0) \<longrightarrow>
    (\<forall>i. k < i \<and> i < k' \<longrightarrow>
       slotScale (sizes' ! i) =
         Some (ddiv (fileWidth (matchingFiles target files ! 0))
                    (fileWidth (matchingFiles target files ! (i - k))))))"
proof (induction files)
  case Nil
  then show ?case by simp
next
  case (Cons f fs)
  show ?case
  proof (cases "fileFormat f = target")
    case nm: False
    with Cons.prems
    have "fileLoop baseUrl target fs (sizes, bw, k) = Inr (sizes', bw', k')"
      by (simp add: fileFormat_def Let_def)
    from Cons.IH [OF Cons.prems(1,2) this] Cons.prems(4) nm show ?thesis
      by (simp add: matchingFiles_Cons)
  next
    case m: True
    define img where "img = Image (''https:'' @ baseUrl @ ''/'' @ toString (jvalue (toObject f) ''name''))
        (Finite 1)
        (static_cast_int (fileWidth f), toInt 16 (jvalue (toObject f) ''height''))"
    have step: "fileLoop baseUrl target fs (sizes[k := Some img], fileWidth f, Suc k) = Inr (sizes', bw', k')"
      using m Cons.prems(1,2,3)
      by (simp add: fileFormat_def fileWidth_def Let_def array_at_put_def img_def)
    have len: "Suc k \<le> length (sizes[k := Some img])" using Cons.prems(2) by simp
    from fileLoop_slots [OF len, of baseUrl target fs "fileWidth f"] step
    have "sizes' ! k = sizes[k := Some img] ! k" by auto
    then have first: "slotScale (sizes' ! k) = Some (Finite 1)"
      using Cons.prems(2) by (simp add: slotScale_def img_def)
    have rest: "slotScale (sizes' ! i) =
        Some (ddiv (fileWidth f) (fileWidth (matchingFiles target (f # fs) ! (i - k))))"
      if wpos: "0 < fileWidth f" and "k < i" "i < k'" for i
    proof -
      from that have ki: "Suc k \<le> i" by simp
      from fileLoop_scales_pos [OF wpos len step ki that(3)] ki m show ?thesis
        by (simp add: matchingFiles_Cons Suc_diff_le)
    qed
    show ?thesis using first rest m by (simp add: matchingFiles_Cons)
  qed
qed

lemma padLoop_eq:
  "k \<le> length sizes \<Longrightarrow>
   padLoop sizes k = Inr (take k sizes @ replicate (length sizes - k) (Some EmptyImage))"
proof (induction sizes k rule: padLoop.induct)
  case (1 sizes nextSize)
  show ?case
  proof (cases "nextSize < length sizes")
    case True
    have "padLoop sizes nextSize = padLoop (sizes[nextSize := Some EmptyImage]) (nextSize + 1)"
      using True by (subst padLoop.simps) (simp add: array_at_put_def)
    also have "\<dots> = Inr (take (nextSize + 1) (sizes[nextSize := Some EmptyImage]) @
                  replicate (length sizes - (nextSize + 1)) (Some EmptyImage))"
      using "1.IH" [of "sizes[nextSize := Some EmptyImage]"] True
      by (simp add: array_at_put_def)
    also have "take (nextSize + 1) (sizes[nextSize := Some EmptyImage]) =
                 take nextSize sizes @ [Some EmptyImage]"
      using True by (simp add: take_Suc_conv_app_nth)
    also have "(take nextSize sizes @ [Some EmptyImage]) @
                 replicate (length sizes - (nextSize + 1)) (Some EmptyImage) =
               take nextSize sizes @ replicate (length sizes - nextSize) (Some EmptyImage)"
      using True by (simp add: replicate_Suc [symmetric] Suc_diff_Suc del: replicate_Suc)
    finally show ?thesis .
  next
    case False
    with "1.prems" show ?thesis by (subst padLoop.simps) simp
  qed
qed

lemma resolveLargest_total:
  "length sizes = 4 \<Longrightarrow> \<exists>s. resolveLargest sizes = Inr s \<and> imageX1 s = sizes ! 0"
  by (cases "sizes ! 3") (auto simp: resolveLargest_def isEmpty_def Let_def)

lemma createImageSet_total:
  "\<exists>s. createImageSet cfg emoteData = Inr s \<and>
       (\<exists>i. imageX1 s = Some i \<and> (i = EmptyImage \<longleftrightarrow> chosenFiles cfg emoteData = []))"
proof -
  define baseUrl where "baseUrl = toString (jvalue (toObject (jvalue emoteData ''host'')) ''url'')"
  define files where "files = hostFiles emoteData"
  define target where "target = targetFormat (allowAvifImages cfg) files"
  define n where "n = min 4 (length (matchingFiles target files))"
  have ms: "chosenFiles cfg emoteData = matchingFiles target files"
    by (simp add: chosenFiles_def target_def files_def)
  from fileLoop_slots [of 0 "[None, None, None, None]" baseUrl target files 0]
  obtain sizes bw where
    r: "fileLoop baseUrl target files ([None, None, None, None], 0, 0) = Inr (sizes, bw, n)"
    and l: "length sizes = 4"
    and mid: "\<forall>i. i < n \<longrightarrow> (\<exists>s. sizes ! i =
                 Some (Image (fileUrl baseUrl (matchingFiles target files ! i)) s
                         (fileDims (matchingFiles target files ! i))))"
    by (auto simp: n_def)
  have unfold: "createImageSet cfg emoteData =
      (if n < 4 then (if n = 0 then Inr ImageSet_default
                      else case padLoop sizes n of Inl e \<Rightarrow> Inl e | Inr sizes' \<Rightarrow> resolveLargest sizes')
       else resolveLargest sizes)"
    using r l
    by (simp add: createImageSet_def Let_def baseUrl_def files_def target_def hostFiles_def)
  show ?thesis
  proof (cases "n = 0")
    case True
    then have "matchingFiles target files = []" by (simp add: n_def min_def split: if_splits)
    with True unfold ms show ?thesis by (simp add: ImageSet_default_def)
  next
    case False
    then have ne: "matchingFiles target files \<noteq> []" by (auto simp: n_def min_def split: if_splits)
    from False have "0 < n" by simp
    with mid have "\<exists>s. sizes ! 0 =
                 Some (Image (fileUrl baseUrl (matchingFiles target files ! 0)) s
                         (fileDims (matchingFiles target files ! 0)))" by blast
    then obtain u s d where s0: "sizes ! 0 = Some (Image u s d)" by blast
    have nle: "n \<le> 4" by (simp add: n_def)
    show ?thesis
    proof (cases "n < 4")
      case True
      define sizes' where "sizes' = take n sizes @ replicate (length sizes - n) (Some EmptyImage)"
      have p: "padLoop sizes n = Inr sizes'"
        using padLoop_eq [of n sizes] l nle by (simp add: sizes'_def)
      have l': "length sizes' = 4" using l nle by (simp add: sizes'_def)
      have "sizes' ! 0 = sizes ! 0" using False l by (simp add: sizes'_def nth_append)
      with resolveLargest_total [OF l'] s0 p True False unfold ne ms show ?thesis by auto
    next
      case False
      with resolveLargest_total [OF l] s0 unfold ne ms show ?thesis by auto
    qed
  qed
qed

subsection \<open>The choice of the format\<close>

text \<open>
  Claim C1, as stated, says that whenever next-gen images are allowed and the file list
  is not empty, the chosen format is AVIF if one of the first two entries names it and
  WEBP in every other case, also for a list of one entry whose format is neither. The
  code returns the format of the only entry of a one-entry list, whatever it is: with
  next-gen images allowed and the single file of format GIF, the chosen format is GIF,
  and \<^verbatim>\<open>createImageSet\<close> takes that file as the 1x variant.
\<close>

theorem targetFormat_single_counterexample:
  "targetFormat True [example_file ''GIF'' ''1x.gif'' 1] = ''GIF'' \<and> ''GIF'' \<noteq> ''WEBP'' \<and>
   createImageSet (example_cfg\<lparr>allowAvifImages := True\<rparr>)
     (example_data [example_file ''GIF'' ''1x.gif'' 1]) =
     Inr \<lparr>imageX1 = Some (Image ''https://cdn/1x.gif'' (Finite 1) (1, 16)),
          imageX2 = Some EmptyImage, imageX3 = Some EmptyImage\<rparr>"
  by (simp add: createImageSet_def targetFormat_def json_simps example_simps Let_def
        static_cast_int_def array_at_put_def resolveLargest_def isEmpty_def padLoop.simps)

text \<open>
  Claim C1, amended: if next-gen support is disabled or the file list is empty, the
  chosen format is WEBP; if the list has exactly one entry, the chosen format is the
  format that entry declares, whatever it is; with two or more entries the chosen
  format is AVIF if and only if one of the first two entries names it, and WEBP
  otherwise. Entries past the first two are never inspected.
\<close>

theorem targetFormat_first_two:
  "(\<not> allowAvif \<or> files = [] \<longrightarrow> targetFormat allowAvif files = ''WEBP'') \<and>
   (allowAvif \<and> length files = 1 \<longrightarrow> targetFormat allowAvif files = fileFormat (files ! 0)) \<and>
   (allowAvif \<and> 2 \<le> length files \<longrightarrow>
      targetFormat allowAvif files =
        (if fileFormat (files ! 0) = ''AVIF'' \<or> fileFormat (files ! 1) = ''AVIF''
         then ''AVIF'' else ''WEBP'')) \<and>
   targetFormat allowAvif files = targetFormat allowAvif (take 2 files)"
proof (intro conjI impI)
  assume "\<not> allowAvif \<or> files = []"
  then show "targetFormat allowAvif files = ''WEBP''" by (auto simp: targetFormat_def)
next
  assume "allowAvif \<and> length files = 1"
  then show "targetFormat allowAvif files = fileFormat (files ! 0)"
    by (cases files) (auto simp: targetFormat_def fileFormat_def jat_def jindex_def)
next
  assume "allowAvif \<and> 2 \<le> length files"
  then show "targetFormat allowAvif files =
        (if fileFormat (files ! 0) = ''AVIF'' \<or> fileFormat (files ! 1) = ''AVIF''
         then ''AVIF'' else ''WEBP'')"
    by (cases files) (auto simp: targetFormat_def fileFormat_def jat_def jindex_def Let_def)
next
  show "targetFormat allowAvif files = targetFormat allowAvif (take 2 files)"
  proof (cases files)
    case Nil
    then show ?thesis by simp
  next
    case (Cons a as)
    then show ?thesis
      by (cases as) (auto simp: targetFormat_def jat_def Let_def numeral_2_eq_2)
  qed
qed

theorem targetFormat_first_two_witness:
  "targetFormat False [example_file ''AVIF'' ''1x.avif'' 1] = ''WEBP'' \<and>
   targetFormat True [example_file ''AVIF'' ''1x.avif'' 1] = ''AVIF'' \<and>
   targetFormat True [example_file ''WEBP'' ''1x.webp'' 1, example_file ''AVIF'' ''1x.avif'' 1] =
     ''AVIF'' \<and>
   targetFormat True
     [example_file ''WEBP'' ''1x.webp'' 1, example_file ''WEBP'' ''2x.webp'' 2,
      example_file ''AVIF'' ''1x.avif'' 1] = ''WEBP''"
  using targetFormat_first_two [of False "[example_file ''AVIF'' ''1x.avif'' 1]"]
    targetFormat_first_two [of True "[example_file ''AVIF'' ''1x.avif'' 1]"]
    targetFormat_first_two
      [of True "[example_file ''WEBP'' ''1x.webp'' 1, example_file ''AVIF'' ''1x.avif'' 1]"]
    targetFormat_first_two
      [of True "[example_file ''WEBP'' ''1x.webp'' 1, example_file ''WEBP'' ''2x.webp'' 2,
                 example_file ''AVIF'' ''1x.avif'' 1]"]
  by (simp add: fileFormat_def json_simps example_simps)

lemma createImageSet_unfold:
  assumes r: "fileLoop (hostUrl emoteData)
                (targetFormat (allowAvifImages cfg) (hostFiles emoteData)) (hostFiles emoteData)
                ([None, None, None, None], 0, 0) = Inr (sizes, bw, n)"
    and l: "length sizes = 4" and n: "n \<le> 4"
  shows "createImageSet cfg emoteData =
           (if n = 0 then Inr ImageSet_default
            else resolveLargest (take n sizes @ replicate (4 - n) (Some EmptyImage)))"
proof -
  have p: "padLoop sizes n = Inr (take n sizes @ replicate (4 - n) (Some EmptyImage))"
    using padLoop_eq [of n sizes] l n by simp
  show ?thesis
    using r l n p
    by (simp add: createImageSet_def Let_def hostUrl_def hostFiles_def)
qed

lemma resolveLargest_padded:
  assumes l: "length sizes = 4" and n: "0 < n" "n \<le> 4"
    and filled: "\<forall>i<n. \<exists>u s d. sizes ! i = Some (Image u s d)"
  shows "resolveLargest (take n sizes @ replicate (4 - n) (Some EmptyImage)) =
           Inr \<lparr>imageX1 = sizes ! 0,
                imageX2 = (if 2 \<le> n then sizes ! 1 else Some EmptyImage),
                imageX3 = (if n = 4 then sizes ! 3 else if n = 3 then sizes ! 2
                           else Some EmptyImage)\<rparr>"
proof -
  from l obtain a b c d where s: "sizes = [a, b, c, d]"
    by (cases sizes; cases "tl sizes"; cases "tl (tl sizes)"; cases "tl (tl (tl sizes))") auto
  from n consider "n = 1" | "n = 2" | "n = 3" | "n = 4" by linarith
  then show ?thesis
  proof cases
    case 1
    then show ?thesis by (simp add: s resolveLargest_def isEmpty_def Let_def)
  next
    case 2
    then show ?thesis by (simp add: s resolveLargest_def isEmpty_def Let_def numeral_2_eq_2)
  next
    case 3
    then show ?thesis by (simp add: s resolveLargest_def isEmpty_def Let_def numeral_3_eq_3)
  next
    case 4
    from filled 4 have "\<exists>u s' d'. sizes ! 3 = Some (Image u s' d')" by simp
    then obtain u s' d' where "d = Some (Image u s' d')" by (auto simp: s)
    with 4 show ?thesis by (simp add: s resolveLargest_def isEmpty_def Let_def)
  qed
qed

lemma createImageSet_characterisation:
  "\<exists>sizes bw.
     fileLoop (hostUrl emoteData) (targetFormat (allowAvifImages cfg) (hostFiles emoteData))
       (hostFiles emoteData) ([None, None, None, None], 0, 0) =
       Inr (sizes, bw, min 4 (length (chosenFiles cfg emoteData))) \<and>
     length sizes = 4 \<and>
     (\<forall>i<min 4 (length (chosenFiles cfg emoteData)).
        \<exists>s. sizes ! i =
          Some (Image (fileUrl (hostUrl emoteData) (chosenFiles cfg emoteData ! i)) s
                  (fileDims (chosenFiles cfg emoteData ! i)))) \<and>
     (\<forall>i. min 4 (length (chosenFiles cfg emoteData)) \<le> i \<and> i < 4 \<longrightarrow> sizes ! i = None) \<and>
     (chosenFiles cfg emoteData \<noteq> [] \<longrightarrow> slotScale (sizes ! 0) = Some (Finite 1)) \<and>
     (chosenFiles cfg emoteData \<noteq> [] \<and> 0 < fileWidth (chosenFiles cfg emoteData ! 0) \<longrightarrow>
        (\<forall>i. 0 < i \<and> i < min 4 (length (chosenFiles cfg emoteData)) \<longrightarrow>
           slotScale (sizes ! i) =
             Some (ddiv (fileWidth (chosenFiles cfg emoteData ! 0))
                        (fileWidth (chosenFiles cfg emoteData ! i))))) \<and>
     createImageSet cfg emoteData =
       Inr (if chosenFiles cfg emoteData = [] then ImageSet_default
            else \<lparr>imageX1 = sizes ! 0,
                  imageX2 = (if 2 \<le> length (chosenFiles cfg emoteData) then sizes ! 1
                             else Some EmptyImage),
                  imageX3 = (if 4 \<le> length (chosenFiles cfg emoteData) then sizes ! 3
                             else if length (chosenFiles cfg emoteData) = 3 then sizes ! 2
                             else Some EmptyImage)\<rparr>)"
proof -
  define baseUrl where "baseUrl = hostUrl emoteData"
  define files where "files = hostFiles emoteData"
  define target where "target = targetFormat (allowAvifImages cfg) files"
  define ms where "ms = matchingFiles target files"
  define n where "n = min 4 (length ms)"
  have ms: "chosenFiles cfg emoteData = ms"
    by (simp add: chosenFiles_def target_def files_def ms_def)
  from fileLoop_slots [of 0 "[None, None, None, None]" baseUrl target files 0]
  obtain sizes bw where
    r: "fileLoop baseUrl target files ([None, None, None, None], 0, 0) = Inr (sizes, bw, n)"
    and l: "length sizes = 4"
    and hi: "\<forall>i. n \<le> i \<longrightarrow> sizes ! i = [None, None, None, None] ! i"
    and mid: "\<forall>i. i < n \<longrightarrow> (\<exists>s. sizes ! i = Some (Image (fileUrl baseUrl (ms ! i)) s (fileDims (ms ! i))))"
    by (auto simp: n_def ms_def)
  have nle: "n \<le> 4" by (simp add: n_def)
  have n0: "n = 0 \<longleftrightarrow> ms = []" by (auto simp: n_def min_def)
  have empty: "\<forall>i. n \<le> i \<and> i < 4 \<longrightarrow> sizes ! i = None"
  proof (intro allI impI)
    fix i assume a: "n \<le> i \<and> i < 4"
    then have "i = 0 \<or> i = 1 \<or> i = 2 \<or> i = 3" by linarith
    then have "[None, None, None, None :: ImagePtr] ! i = None" by auto
    with hi a show "sizes ! i = None" by simp
  qed
  have first: "slotScale (sizes ! 0) = Some (Finite 1)" if "ms \<noteq> []"
    using fileLoop_scales_first [of 0 0 "[None, None, None, None]" baseUrl target files sizes bw n]
      r that by (simp add: ms_def)
  have scales: "\<forall>i. 0 < i \<and> i < n \<longrightarrow>
           slotScale (sizes ! i) = Some (ddiv (fileWidth (ms ! 0)) (fileWidth (ms ! i)))"
    if "ms \<noteq> []" "0 < fileWidth (ms ! 0)"
    using fileLoop_scales_first [of 0 0 "[None, None, None, None]" baseUrl target files sizes bw n]
      r that by (simp add: ms_def)
  have filled: "\<forall>i<n. \<exists>u s d. sizes ! i = Some (Image u s d)" using mid by blast
  have res: "createImageSet cfg emoteData =
       Inr (if ms = [] then ImageSet_default
            else \<lparr>imageX1 = sizes ! 0,
                  imageX2 = (if 2 \<le> length ms then sizes ! 1 else Some EmptyImage),
                  imageX3 = (if 4 \<le> length ms then sizes ! 3
                             else if length ms = 3 then sizes ! 2 else Some EmptyImage)\<rparr>)"
  proof (cases "ms = []")
    case True
    with createImageSet_unfold [of emoteData cfg sizes bw n] r l nle n0 show ?thesis
      by (simp add: baseUrl_def files_def target_def)
  next
    case False
    then have npos: "0 < n" using n0 by simp
    have c: "createImageSet cfg emoteData =
               resolveLargest (take n sizes @ replicate (4 - n) (Some EmptyImage))"
      using createImageSet_unfold [of emoteData cfg sizes bw n] r l nle npos
      by (simp add: baseUrl_def files_def target_def)
    have e2: "2 \<le> n \<longleftrightarrow> 2 \<le> length ms" by (simp add: n_def)
    have e4: "n = 4 \<longleftrightarrow> 4 \<le> length ms" by (auto simp: n_def min_def)
    have e3: "n = 3 \<longleftrightarrow> length ms = 3" by (auto simp: n_def min_def)
    show ?thesis
      unfolding c resolveLargest_padded [OF l npos nle filled]
      using False by (simp add: e2 e3 e4)
  qed
  show ?thesis
    unfolding ms
    using r l mid empty first scales res
    by (intro exI [of _ sizes] exI [of _ bw])
       (simp add: baseUrl_def files_def target_def n_def)
qed

subsection \<open>Slots and scale factors\<close>

text \<open>
  Claim C6 says that for every file list the first file of the chosen format sets the
  reference width \<open>W0\<close> and gets the scale 1, and that every later file of that format
  gets the scale \<open>W0\<close> divided by its own width. The loop has no flag for the first
  image: it takes \<^verbatim>\<open>baseWidth > 0.0\<close> as the sign that the reference width is set, and
  the other branch carries the comment \<^verbatim>\<open>=> this is the first image\<close>. After a first
  matching file of width 0 the second matching file goes through that branch: it gets
  the scale 1 and its width 2 becomes the reference, where the claim gives it the
  quotient of 0 by 2. The theorem evaluates the code at this input, with next-gen images
  disabled: the loop ends with the reference width 2 and both slots at the scale 1.
\<close>

theorem createImageSet_zero_width_first:
  "fileLoop ''//cdn'' ''WEBP''
     [example_file ''WEBP'' ''1x.webp'' 0, example_file ''WEBP'' ''2x.webp'' 2]
     ([None, None, None, None], 0, 0) =
     Inr ([Some (Image ''https://cdn/1x.webp'' (Finite 1) (0, 16)),
           Some (Image ''https://cdn/2x.webp'' (Finite 1) (2, 16)), None, None], 2, 2) \<and>
   createImageSet example_cfg
     (example_data [example_file ''WEBP'' ''1x.webp'' 0, example_file ''WEBP'' ''2x.webp'' 2]) =
     Inr \<lparr>imageX1 = Some (Image ''https://cdn/1x.webp'' (Finite 1) (0, 16)),
          imageX2 = Some (Image ''https://cdn/2x.webp'' (Finite 1) (2, 16)),
          imageX3 = Some EmptyImage\<rparr>"
  by (simp add: createImageSet_def targetFormat_def json_simps example_simps Let_def
        static_cast_int_def array_at_put_def resolveLargest_def isEmpty_def
        padLoop.simps)

text \<open>
  Where the first matching file has a positive width the code does what the claim says
  (\<open>createImageSet_characterisation\<close>), and so it does on the example of the claim:
  for three WEBP files of the widths 1, 2 and 3 with next-gen images disabled, the slots
  0 to 2 hold the scale 1 and the quotients of 1 by 2 and of 1 by 3, slot 3 is padded
  with the empty placeholder, and the largest variant of the result is slot 2.
\<close>

lemma createImageSet_three_files:
  "fileLoop ''//cdn'' ''WEBP'' example_files3 ([None, None, None, None], 0, 0) =
     Inr ([Some (Image ''https://cdn/1x.webp'' (Finite 1) (1, 16)),
           Some (Image ''https://cdn/2x.webp'' (ddiv 1 2) (2, 16)),
           Some (Image ''https://cdn/3x.webp'' (ddiv 1 3) (3, 16)),
           None], 1, 3)"
  "padLoop [Some (Image ''https://cdn/1x.webp'' (Finite 1) (1, 16)),
            Some (Image ''https://cdn/2x.webp'' (ddiv 1 2) (2, 16)),
            Some (Image ''https://cdn/3x.webp'' (ddiv 1 3) (3, 16)),
            None] 3 =
     Inr [Some (Image ''https://cdn/1x.webp'' (Finite 1) (1, 16)),
          Some (Image ''https://cdn/2x.webp'' (ddiv 1 2) (2, 16)),
          Some (Image ''https://cdn/3x.webp'' (ddiv 1 3) (3, 16)),
          Some EmptyImage]"
  "\<not> allowAvifImages cfg \<Longrightarrow>
   createImageSet cfg (example_data example_files3) =
     Inr \<lparr>imageX1 = Some (Image ''https://cdn/1x.webp'' (Finite 1) (1, 16)),
          imageX2 = Some (Image ''https://cdn/2x.webp'' (ddiv 1 2) (2, 16)),
          imageX3 = Some (Image ''https://cdn/3x.webp'' (ddiv 1 3) (3, 16))\<rparr>"
  by (simp_all add: createImageSet_def targetFormat_def example_files3_def json_simps
        example_simps static_cast_int_def ddiv_def array_at_put_def resolveLargest_def
        isEmpty_def padLoop.simps Let_def)

lemma chosenFiles_example3:
  "chosenFiles example_cfg (example_data example_files3) = example_files3"
  by (simp add: chosenFiles_def hostFiles_def matchingFiles_def fileFormat_def targetFormat_def
        example_files3_def json_simps example_simps)
section \<open>Building records and batches\<close>

lemma createEmote_total:
  "\<exists>r. createEmote cfg activeEmote emoteData kind = Inr r \<and>
       result_id r = toString (jvalue activeEmote ''id'') \<and>
       result_name r = toString (jvalue activeEmote ''name'') \<and>
       name (emote r) = result_name r \<and>
       emote_id (emote r) = result_id r \<and>
       hasImages r = (chosenFiles cfg emoteData \<noteq> []) \<and>
       hasPrimaryImage (emote r) = (chosenFiles cfg emoteData \<noteq> [])"
proof -
  from createImageSet_total [of cfg emoteData]
  obtain s i where s: "createImageSet cfg emoteData = Inr s" "imageX1 s = Some i"
    "i = EmptyImage \<longleftrightarrow> chosenFiles cfg emoteData = []"
    by blast
  then show ?thesis
    by (simp add: createEmote_def Let_def isEmpty_def hasPrimaryImage_def)
qed

lemma parseLoop_reject:
  "\<not> entryAccepted cfg kind e \<Longrightarrow> parseLoop cfg kind held (e # es) st = parseLoop cfg kind held es st"
proof -
  assume a: "\<not> entryAccepted cfg kind e"
  obtain m w where st: "st = (m, w)" by (cases st)
  from createEmote_total [of cfg "toObject e" "entryData e" kind]
  obtain r where r: "createEmote cfg (toObject e) (entryData e) kind = Inr r"
    "hasImages r = (chosenFiles cfg (entryData e) \<noteq> [])" by blast
  show ?thesis
    using a r unfolding st
    by (auto simp: entryAccepted_def entryData_def Let_def)
qed

lemma parseLoop_accept:
  assumes "entryAccepted cfg kind e"
  shows "\<exists>r. createEmote cfg (toObject e) (entryData e) kind = Inr r \<and>
             result_id r = entryId e \<and> result_name r = entryName e \<and>
             name (emote r) = entryName e \<and> emote_id (emote r) = entryId e \<and>
             hasPrimaryImage (emote r) \<and>
             parseLoop cfg kind held (e # es) (m, w) =
               parseLoop cfg kind held es
                 (map_assign held (entryName e) (fst (cachedOrMake (emote r) (entryId e) w)) m
                    (snd (cachedOrMake (emote r) (entryId e) w)))"
proof -
  from createEmote_total [of cfg "toObject e" "entryData e" kind]
  obtain r where r: "createEmote cfg (toObject e) (entryData e) kind = Inr r"
    "result_id r = entryId e" "result_name r = entryName e"
    "name (emote r) = result_name r" "emote_id (emote r) = result_id r"
    "hasImages r = (chosenFiles cfg (entryData e) \<noteq> [])"
    "hasPrimaryImage (emote r) = (chosenFiles cfg (entryData e) \<noteq> [])"
    unfolding entryId_def entryName_def by blast
  show ?thesis
    using assms r
    by (auto simp: entryAccepted_def entryData_def Let_def split: prod.splits)
qed



lemma parseLoop_filter:
  "parseLoop cfg kind held es st = parseLoop cfg kind held (filter (entryAccepted cfg kind) es) st"
proof (induction es arbitrary: st)
  case Nil
  then show ?case by simp
next
  case (Cons e es)
  obtain m w where st: "st = (m, w)" by (cases st)
  show ?case
  proof (cases "entryAccepted cfg kind e")
    case True
    from parseLoop_accept [OF True, of held es m w]
      parseLoop_accept [OF True, of held "filter (entryAccepted cfg kind) es" m w]
      Cons.IH True show ?thesis
      unfolding st by auto
  next
    case False
    from parseLoop_reject [OF False] Cons.IH False show ?thesis by simp
  qed
qed

lemma createEmote_alias:
  "createEmote cfg activeEmote emoteData kind = Inr r \<Longrightarrow>
   baseName (emote r) =
     (if toString (jvalue activeEmote ''name'') \<noteq> toString (jvalue emoteData ''name'')
      then Some (toString (jvalue emoteData ''name'')) else None)"
  by (auto simp: createEmote_def Let_def makeConditionedOptional_def split: sum.splits)

lemma checkEmoteVisibility_iff:
  "checkEmoteVisibility cfg d kind \<longleftrightarrow>
     (toBool (jvalue d ''listed'') \<or> showUnlistedSevenTVEmotes cfg) \<and>
     (kind = Personal \<longrightarrow> JString ''PERSONAL'' \<in> set (toArray (jvalue d ''state''))) \<and>
     \<not> hasContentTwitchDisallowed cfg (toInt 0 (jvalue d ''flags''))"
  by (auto simp: checkEmoteVisibility_def)
section \<open>The allocator and the intern cache\<close>

lemma world_ok_empty: "world_ok empty_world"
  by (simp add: world_ok_def empty_world_def)

lemma cachedOrMake_hit:
  "cache w i = Some p \<Longrightarrow> addr p \<in> live w \<Longrightarrow> cachedOrMake e i w = (p, w)"
  by (simp add: cachedOrMake_def cachedOrMakeEmotePtr_def weak_lock_def)

lemma cachedOrMake_miss:
  "weak_lock w (cache w i) = None \<Longrightarrow>
   cachedOrMake e i w =
      (EmotePtr (next_addr w) e,
       w\<lparr>next_addr := Suc (next_addr w), live := insert (next_addr w) (live w),
         cache := (cache w)(i \<mapsto> EmotePtr (next_addr w) e)\<rparr>)"
  by (simp add: cachedOrMake_def cachedOrMakeEmotePtr_def make_shared_Emote_def)

lemma weak_lock_cases:
  "(\<exists>p. cache w i = Some p \<and> addr p \<in> live w) \<or> weak_lock w (cache w i) = None"
  by (auto simp: weak_lock_def split: option.splits)

lemma cachedOrMake_result:
  assumes "world_ok w" "emote_id e = i" "hasPrimaryImage e"
    and r: "cachedOrMake e i w = (p, w')"
  shows "world_ok w' \<and> cache w' i = Some p \<and> addr p \<in> live w' \<and>
         next_addr w \<le> next_addr w' \<and> live w \<subseteq> live w' \<and>
         (name (obj p) = name e \<or> (cache w i = Some p \<and> addr p \<in> live w))"
proof -
  from weak_lock_cases [of w i] show ?thesis
  proof
    assume "\<exists>q. cache w i = Some q \<and> addr q \<in> live w"
    then obtain q where q: "cache w i = Some q" "addr q \<in> live w" by blast
    with cachedOrMake_hit [OF q, of e] r have "p = q" "w' = w" by simp_all
    with q assms show ?thesis by simp
  next
    assume m: "weak_lock w (cache w i) = None"
    from cachedOrMake_miss [OF m, of e] r
    have p: "p = EmotePtr (next_addr w) e"
      and w': "w' = w\<lparr>next_addr := Suc (next_addr w), live := insert (next_addr w) (live w),
         cache := (cache w)(i \<mapsto> EmotePtr (next_addr w) e)\<rparr>" by simp_all
    have "world_ok w'"
      using assms(1,2,3) unfolding w' world_ok_def by (auto simp: less_Suc_eq)
    then show ?thesis using p w' by auto
  qed
qed

lemma world_step_mono: "world_step w w' \<Longrightarrow> next_addr w \<le> next_addr w'"
proof (induction rule: world_step.induct)
  case (intern e i w)
  from weak_lock_cases [of w i] show ?case
    by (auto simp: cachedOrMake_hit cachedOrMake_miss)
next
  case (alloc w)
  then show ?case by (simp add: make_shared_Emote_def)
next
  case (release w a)
  then show ?case by simp
qed

lemma world_step_ok: "world_step w w' \<Longrightarrow> world_ok w \<Longrightarrow> world_ok w'"
proof (induction rule: world_step.induct)
  case (intern e i w)
  obtain p w' where r: "cachedOrMake e i w = (p, w')" by (cases "cachedOrMake e i w")
  from cachedOrMake_result [OF intern(3) intern(1,2) r] r show ?case by simp
next
  case (alloc w)
  then show ?case by (auto simp: make_shared_Emote_def world_ok_def less_Suc_eq)
next
  case (release w a)
  then show ?case by (auto simp: world_ok_def)
qed

lemma world_step_dead:
  "world_step w w' \<Longrightarrow> world_ok w \<Longrightarrow> a < next_addr w \<Longrightarrow> a \<in> live w' \<Longrightarrow> a \<in> live w"
proof (induction rule: world_step.induct)
  case (intern e i w)
  from weak_lock_cases [of w i] intern show ?case
    by (auto simp: cachedOrMake_hit cachedOrMake_miss)
next
  case (alloc w)
  then show ?case by (auto simp: make_shared_Emote_def)
next
  case (release w b)
  then show ?case by simp
qed

lemma world_step_cache:
  "world_step w w' \<Longrightarrow> world_ok w \<Longrightarrow> cache w i = Some p \<Longrightarrow> addr p \<in> live w' \<Longrightarrow>
   cache w' i = Some p"
proof (induction rule: world_step.induct)
  case (intern e j w)
  have lt: "addr p < next_addr w" using intern(3,4) by (simp add: world_ok_def)
  have "world_step w (snd (cachedOrMake e j w))" using intern(1,2) by (rule world_step.intern)
  from world_step_dead [OF this intern(3) lt intern(5)] have lv: "addr p \<in> live w" .
  show ?case
  proof (cases "j = i")
    case True
    with cachedOrMake_hit [OF intern(4) lv, of e] show ?thesis using intern(4) by simp
  next
    case False
    from weak_lock_cases [of w j] False intern(4) show ?thesis
      by (auto simp: cachedOrMake_hit cachedOrMake_miss)
  qed
next
  case (alloc w)
  then show ?case by (simp add: make_shared_Emote_def)
next
  case (release w a)
  then show ?case by simp
qed

lemma world_steps_ok: "world_step\<^sup>*\<^sup>* w w' \<Longrightarrow> world_ok w \<Longrightarrow> world_ok w'"
  by (induction rule: rtranclp_induct) (auto intro: world_step_ok)

lemma world_steps_mono: "world_step\<^sup>*\<^sup>* w w' \<Longrightarrow> next_addr w \<le> next_addr w'"
  by (induction rule: rtranclp_induct) (auto dest: world_step_mono)

lemma world_steps_cache:
  "world_step\<^sup>*\<^sup>* w w' \<Longrightarrow> world_ok w \<Longrightarrow> cache w i = Some p \<Longrightarrow> addr p \<in> live w' \<Longrightarrow>
   cache w' i = Some p \<and> addr p \<in> live w"
proof (induction rule: rtranclp_induct)
  case base
  then show ?case by simp
next
  case (step y z)
  have oky: "world_ok y" using step(1,4) by (rule world_steps_ok)
  have "addr p < next_addr w" using step(4,5) by (simp add: world_ok_def)
  with world_steps_mono [OF step(1)] have lt: "addr p < next_addr y" by simp
  from world_step_dead [OF step(2) oky lt step(6)] have ly: "addr p \<in> live y" .
  from step(3) [OF step(4,5) ly] have cy: "cache y i = Some p" and lw: "addr p \<in> live w"
    by simp_all
  from world_step_cache [OF step(2) oky cy step(6)] lw show ?case by simp
qed

section \<open>Invariants of the batch builder\<close>

lemma set_update_subset: "set (AList.update k v al) \<subseteq> insert (k, v) (set al)"
  by (induction al) auto

lemma in_set_update: "(k, v) \<in> set (AList.update k v al)"
  by (induction al) auto

lemma length_update:
  "length (AList.update k v al) = (if k \<in> fst ` set al then length al else Suc (length al))"
  by (induction al) auto




lemma addrs_update:
  "addr ` snd ` set (AList.update k q m) \<subseteq> insert (addr q) (addr ` snd ` set m)"
proof
  fix a
  assume "a \<in> addr ` snd ` set (AList.update k q m)"
  then obtain x where x: "x \<in> set (AList.update k q m)" "a = addr (snd x)" by blast
  with set_update_subset [of k q m] have "x = (k, q) \<or> x \<in> set m" by blast
  with x(2) show "a \<in> insert (addr q) (addr ` snd ` set m)" by auto
qed

lemma map_assign_eq: "\<exists>w2. map_assign held k q m w = (AList.update k q m, w2)"
  by (simp add: map_assign_def Let_def)

lemma map_assign_cases:
  "map_assign held k q m w = (AList.update k q m, w) \<or>
   (\<exists>a. a \<notin> held \<and> a \<notin> addr ` snd ` set (AList.update k q m) \<and>
        map_assign held k q m w = (AList.update k q m, w\<lparr>live := live w - {a}\<rparr>))"
  by (auto simp: map_assign_def Let_def split: option.splits)

lemma map_assign_fresh:
  "k \<notin> fst ` set m \<Longrightarrow> map_assign held k q m w = (AList.update k q m, w)"
proof -
  assume "k \<notin> fst ` set m"
  then have "map_of m k = None" by (simp add: map_of_eq_None_iff)
  then show ?thesis by (simp add: map_assign_def Let_def)
qed

lemma map_assign_held:
  "addr ` snd ` set m \<subseteq> held \<Longrightarrow> map_assign held k q m w = (AList.update k q m, w)"
proof -
  assume h: "addr ` snd ` set m \<subseteq> held"
  have "addr old \<in> held" if "map_of m k = Some old" for old
  proof -
    from that have "(k, old) \<in> set m" by (rule map_of_SomeD)
    then have "addr old \<in> addr ` snd ` set m" by force
    with h show ?thesis by blast
  qed
  then show ?thesis by (auto simp: map_assign_def Let_def split: option.splits)
qed

text \<open>
  One round of the loop on an accepted entry: the record from the cache is live, the
  collection is updated at the entry's display name, and the world after the assignment
  is the world after the cache, or that world with one record released that is neither
  held outside the build nor stored in the updated collection.
\<close>

lemma parseLoop_round:
  assumes acc: "entryAccepted cfg kind e" and ok: "world_ok w"
  obtains r :: CreateEmoteResult and q w1 w2 where
    "emote_id (emote r) = entryId e" "hasPrimaryImage (emote r)"
    "name (emote r) = entryName e"
    "cachedOrMake (emote r) (entryId e) w = (q, w1)"
    "w2 = w1 \<or>
     (\<exists>a. a \<notin> held \<and> a \<notin> addr ` snd ` set (AList.update (entryName e) q m) \<and>
          w2 = w1\<lparr>live := live w1 - {a}\<rparr>)"
    "world_ok w1" "world_ok w2" "world_step w w1" "world_step\<^sup>*\<^sup>* w1 w2"
    "cache w1 (entryId e) = Some q" "cache w2 = cache w1" "addr q \<in> live w1"
    "live w \<subseteq> live w1"
    "name (obj q) = entryName e \<or> (cache w (entryId e) = Some q \<and> addr q \<in> live w)"
    "parseLoop cfg kind held (e # es) (m, w) =
       parseLoop cfg kind held es (AList.update (entryName e) q m, w2)"
proof -
  from parseLoop_accept [OF acc, of held es m w]
  obtain r :: CreateEmoteResult where r: "emote_id (emote r) = entryId e" "hasPrimaryImage (emote r)"
    "name (emote r) = entryName e"
    "parseLoop cfg kind held (e # es) (m, w) =
       parseLoop cfg kind held es
         (map_assign held (entryName e) (fst (cachedOrMake (emote r) (entryId e) w)) m
            (snd (cachedOrMake (emote r) (entryId e) w)))"
    by blast
  define q where "q = fst (cachedOrMake (emote r) (entryId e) w)"
  define w1 where "w1 = snd (cachedOrMake (emote r) (entryId e) w)"
  define w2 where "w2 = snd (map_assign held (entryName e) q m w1)"
  have c: "cachedOrMake (emote r) (entryId e) w = (q, w1)" by (simp add: q_def w1_def)
  from cachedOrMake_result [OF ok r(1,2) c]
  have ok1: "world_ok w1" and cq: "cache w1 (entryId e) = Some q" and lq: "addr q \<in> live w1"
    and lv: "live w \<subseteq> live w1"
    and nm: "name (obj q) = name (emote r) \<or> (cache w (entryId e) = Some q \<and> addr q \<in> live w)"
    by simp_all
  have s1: "world_step w w1"
    using world_step.intern [OF r(1,2), of w] by (simp add: c)
  from map_assign_cases [of held "entryName e" q m w1]
  have ma: "map_assign held (entryName e) q m w1 = (AList.update (entryName e) q m, w2)"
    and w2: "w2 = w1 \<or>
      (\<exists>a. a \<notin> held \<and> a \<notin> addr ` snd ` set (AList.update (entryName e) q m) \<and>
           w2 = w1\<lparr>live := live w1 - {a}\<rparr>)"
    unfolding w2_def by auto
  from w2 have s2: "world_step\<^sup>*\<^sup>* w1 w2"
    by (auto intro: r_into_rtranclp world_step.release)
  from s2 ok1 have ok2: "world_ok w2" by (rule world_steps_ok)
  from w2 have c2: "cache w2 = cache w1" by auto
  have p: "parseLoop cfg kind held (e # es) (m, w) =
      parseLoop cfg kind held es (AList.update (entryName e) q m, w2)"
    using r(4) ma by (simp add: q_def w1_def)
  from nm r(3)
  have nm': "name (obj q) = entryName e \<or> (cache w (entryId e) = Some q \<and> addr q \<in> live w)"
    by simp
  show thesis
    using r(1,2,3) c w2 ok1 ok2 s1 s2 cq c2 lq lv nm' p by (rule that)
qed

lemma round_live:
  assumes "w2 = w1 \<or> (\<exists>a. a \<notin> held \<and> a \<notin> S \<and> w2 = w1\<lparr>live := live w1 - {a}\<rparr>)"
  shows "S \<subseteq> live w1 \<Longrightarrow> S \<subseteq> live w2" and "held \<subseteq> live w1 \<Longrightarrow> held \<subseteq> live w2"
proof -
  from assms show "S \<subseteq> live w1 \<Longrightarrow> S \<subseteq> live w2"
  proof
    assume "w2 = w1"
    then show "S \<subseteq> live w1 \<Longrightarrow> S \<subseteq> live w2" by simp
  next
    assume "\<exists>a. a \<notin> held \<and> a \<notin> S \<and> w2 = w1\<lparr>live := live w1 - {a}\<rparr>"
    then obtain a where "a \<notin> S" "live w2 = live w1 - {a}" by force
    then show "S \<subseteq> live w1 \<Longrightarrow> S \<subseteq> live w2" by blast
  qed
  from assms show "held \<subseteq> live w1 \<Longrightarrow> held \<subseteq> live w2"
  proof
    assume "w2 = w1"
    then show "held \<subseteq> live w1 \<Longrightarrow> held \<subseteq> live w2" by simp
  next
    assume "\<exists>a. a \<notin> held \<and> a \<notin> S \<and> w2 = w1\<lparr>live := live w1 - {a}\<rparr>"
    then obtain a where "a \<notin> held" "live w2 = live w1 - {a}" by force
    then show "held \<subseteq> live w1 \<Longrightarrow> held \<subseteq> live w2" by blast
  qed
qed

lemma parseLoop_steps:
  "world_ok w \<Longrightarrow> parseLoop cfg kind held es (m, w) = Inr (m', w') \<Longrightarrow> world_step\<^sup>*\<^sup>* w w'"
proof (induction es arbitrary: m w)
  case Nil
  then show ?case by simp
next
  case (Cons e es)
  show ?case
  proof (cases "entryAccepted cfg kind e")
    case True
    from True Cons.prems(1) obtain q w1 w2 where r: "world_ok w2" "world_step w w1" "world_step\<^sup>*\<^sup>* w1 w2"
      "parseLoop cfg kind held (e # es) (m, w) =
         parseLoop cfg kind held es (AList.update (entryName e) q m, w2)"
      by (rule parseLoop_round [where held = held and m = m and es = es]) (rule that)
    from Cons.IH [OF r(1)] Cons.prems(2) r(4) have "world_step\<^sup>*\<^sup>* w2 w'" by simp
    with r(3) have "world_step\<^sup>*\<^sup>* w1 w'" by (rule rtranclp_trans)
    with r(2) show ?thesis by (rule converse_rtranclp_into_rtranclp)
  next
    case False
    from parseLoop_reject [OF False, of held es "(m, w)"] Cons show ?thesis by simp
  qed
qed

text \<open>The objects held outside the build stay alive.\<close>

lemma parseLoop_live:
  "world_ok w \<Longrightarrow> held \<subseteq> live w \<Longrightarrow> parseLoop cfg kind held es (m, w) = Inr (m', w') \<Longrightarrow>
   held \<subseteq> live w'"
proof (induction es arbitrary: m w)
  case Nil
  then show ?case by simp
next
  case (Cons e es)
  show ?case
  proof (cases "entryAccepted cfg kind e")
    case True
    from True Cons.prems(1) obtain q w1 w2 where r: "world_ok w2" "live w \<subseteq> live w1"
      "w2 = w1 \<or>
        (\<exists>a. a \<notin> held \<and> a \<notin> addr ` snd ` set (AList.update (entryName e) q m) \<and>
             w2 = w1\<lparr>live := live w1 - {a}\<rparr>)"
      "parseLoop cfg kind held (e # es) (m, w) =
         parseLoop cfg kind held es (AList.update (entryName e) q m, w2)"
      by (rule parseLoop_round [where held = held and m = m and es = es]) (rule that)
    from Cons.prems(2) r(2) have "held \<subseteq> live w1" by blast
    with r(3) have "held \<subseteq> live w2" by (rule round_live(2))
    from Cons.IH [OF r(1) this] Cons.prems(3) r(4) show ?thesis by simp
  next
    case False
    from parseLoop_reject [OF False, of held es "(m, w)"] Cons show ?thesis by simp
  qed
qed

text \<open>The records of the collection under construction are alive.\<close>

lemma parseLoop_map_live:
  "world_ok w \<Longrightarrow> addr ` snd ` set m \<subseteq> live w \<Longrightarrow>
   parseLoop cfg kind held es (m, w) = Inr (m', w') \<Longrightarrow> addr ` snd ` set m' \<subseteq> live w'"
proof (induction es arbitrary: m w)
  case Nil
  then show ?case by simp
next
  case (Cons e es)
  show ?case
  proof (cases "entryAccepted cfg kind e")
    case True
    from True Cons.prems(1) obtain q w1 w2 where r: "world_ok w2" "live w \<subseteq> live w1" "addr q \<in> live w1"
      "w2 = w1 \<or>
        (\<exists>a. a \<notin> held \<and> a \<notin> addr ` snd ` set (AList.update (entryName e) q m) \<and>
             w2 = w1\<lparr>live := live w1 - {a}\<rparr>)"
      "parseLoop cfg kind held (e # es) (m, w) =
         parseLoop cfg kind held es (AList.update (entryName e) q m, w2)"
      by (rule parseLoop_round [where held = held and m = m and es = es]) (rule that)
    from Cons.prems(2) r(2) have "addr ` snd ` set m \<subseteq> live w1" by (rule subset_trans)
    with r(3) have "insert (addr q) (addr ` snd ` set m) \<subseteq> live w1" by simp
    with addrs_update have "addr ` snd ` set (AList.update (entryName e) q m) \<subseteq> live w1"
      by (rule subset_trans)
    with r(4) have "addr ` snd ` set (AList.update (entryName e) q m) \<subseteq> live w2"
      by (rule round_live(1))
    from Cons.IH [OF r(1) this] Cons.prems(3) r(5) show ?thesis by simp
  next
    case False
    from parseLoop_reject [OF False, of held es "(m, w)"] Cons show ?thesis by simp
  qed
qed

lemma parseLoop_origin:
  "world_ok w \<Longrightarrow> addr ` snd ` set m \<subseteq> live w \<Longrightarrow>
   parseLoop cfg kind held es (m, w) = Inr (m', w') \<Longrightarrow> (k, p) \<in> set m' \<Longrightarrow>
   (k, p) \<in> set m \<or>
   (\<exists>e\<in>set es. entryAccepted cfg kind e \<and> entryName e = k \<and>
      cache w' (entryId e) = Some p \<and> addr p \<in> live w')"
proof (induction es arbitrary: m w)
  case Nil
  then show ?case by simp
next
  case (Cons e es)
  from parseLoop_map_live [OF Cons.prems(1,2,3)] Cons.prems(4)
  have lp: "addr p \<in> live w'" by force
  show ?case
  proof (cases "entryAccepted cfg kind e")
    case True
    from True Cons.prems(1) obtain q w1 w2 where r: "world_ok w2" "live w \<subseteq> live w1" "addr q \<in> live w1"
      "w2 = w1 \<or>
        (\<exists>a. a \<notin> held \<and> a \<notin> addr ` snd ` set (AList.update (entryName e) q m) \<and>
             w2 = w1\<lparr>live := live w1 - {a}\<rparr>)"
      "cache w1 (entryId e) = Some q" "cache w2 = cache w1"
      "parseLoop cfg kind held (e # es) (m, w) =
         parseLoop cfg kind held es (AList.update (entryName e) q m, w2)"
      by (rule parseLoop_round [where held = held and m = m and es = es]) (rule that)
    from Cons.prems(2) r(2) have "addr ` snd ` set m \<subseteq> live w1" by (rule subset_trans)
    with r(3) have "insert (addr q) (addr ` snd ` set m) \<subseteq> live w1" by simp
    with addrs_update have "addr ` snd ` set (AList.update (entryName e) q m) \<subseteq> live w1"
      by (rule subset_trans)
    with r(4) have l2: "addr ` snd ` set (AList.update (entryName e) q m) \<subseteq> live w2"
      by (rule round_live(1))
    have rest: "parseLoop cfg kind held es (AList.update (entryName e) q m, w2) = Inr (m', w')"
      using r(7) Cons.prems(3) by simp
    from Cons.IH [OF r(1) l2 rest Cons.prems(4)]
    show ?thesis
    proof
      assume "(k, p) \<in> set (AList.update (entryName e) q m)"
      with set_update_subset [of "entryName e" q m]
      have "(k, p) = (entryName e, q) \<or> (k, p) \<in> set m" by auto
      then show ?thesis
      proof
        assume eq: "(k, p) = (entryName e, q)"
        from r(5,6) have cq: "cache w2 (entryId e) = Some q" by simp
        from eq lp have lw': "addr q \<in> live w'" by simp
        from world_steps_cache [OF parseLoop_steps [OF r(1) rest] r(1) cq lw']
        have "cache w' (entryId e) = Some q" by simp
        with eq lw' True show ?thesis by auto
      next
        assume "(k, p) \<in> set m"
        then show ?thesis by simp
      qed
    next
      assume "\<exists>e\<in>set es. entryAccepted cfg kind e \<and> entryName e = k \<and>
        cache w' (entryId e) = Some p \<and> addr p \<in> live w'"
      then show ?thesis by auto
    qed
  next
    case False
    from parseLoop_reject [OF False, of held es "(m, w)"] Cons.prems
    have "parseLoop cfg kind held es (m, w) = Inr (m', w')" by simp
    from Cons.IH [OF Cons.prems(1,2) this Cons.prems(4)] show ?thesis by auto
  qed
qed









text \<open>
  Every record of a built collection is, at the end of the build, the live record the
  cache holds for its identifier, and it was stored for an accepted entry of that
  identifier under the entry's display name.
\<close>

lemma parseEmotes_cached:
  assumes ok: "world_ok w" and p: "parseEmotes cfg es kind w = Inr (m, w1)"
    and km: "(k, p) \<in> set m"
  shows "world_ok w1 \<and> world_step\<^sup>*\<^sup>* w w1 \<and> live w \<subseteq> live w1 \<and>
         cache w1 (emote_id (obj p)) = Some p \<and> addr p \<in> live w1 \<and>
         (\<exists>e\<in>set es. entryAccepted cfg kind e \<and> entryName e = k \<and> entryId e = emote_id (obj p))"
proof -
  from p have l: "parseLoop cfg kind (live w) es ([], w) = Inr (m, w1)"
    by (simp add: parseEmotes_def)
  have st: "world_step\<^sup>*\<^sup>* w w1" using ok l by (rule parseLoop_steps)
  have ok1: "world_ok w1" using st ok by (rule world_steps_ok)
  have lv: "live w \<subseteq> live w1" using parseLoop_live [OF ok _ l] by simp
  from parseLoop_origin [OF ok _ l km]
  obtain e where e: "e \<in> set es" "entryAccepted cfg kind e" "entryName e = k"
    "cache w1 (entryId e) = Some p" "addr p \<in> live w1" by auto
  from ok1 e(4) have "emote_id (obj p) = entryId e" by (simp add: world_ok_def)
  with e ok1 st lv show ?thesis by auto
qed

section \<open>The incremental operations\<close>

lemma findEmote_in_map: "findEmote m n i = Some (k, p) \<Longrightarrow> (k, p) \<in> set m"
  by (auto simp: findEmote_def find_Some_iff split: option.splits dest: map_of_SomeD)

lemma set_delete: "set (AList.delete k m) = {x \<in> set m. fst x \<noteq> k}"
  by (induction m) auto

text \<open>
  Where the name hint is no key of the collection, the record is located by its
  identifier: the record just stored under \<open>k\<close> is found when no record under another
  name has its identifier.
\<close>

lemma find_update_id:
  "emote_id (obj p) = i \<Longrightarrow> \<forall>(k', p') \<in> set m. k' \<noteq> k \<longrightarrow> emote_id (obj p') \<noteq> i \<Longrightarrow>
   List.find (\<lambda>entry. emote_id (obj (snd entry)) = i) (AList.update k p m) = Some (k, p)"
  by (induction m) auto

lemma findEmote_by_id:
  assumes "map_of m hint = None" "hint \<noteq> k" "emote_id (obj p) = i"
    and "\<forall>(k', p') \<in> set m. k' \<noteq> k \<longrightarrow> emote_id (obj p') \<noteq> i"
  shows "findEmote (AList.update k p m) hint i = Some (k, p)"
  using assms find_update_id [of p i m k] by (simp add: findEmote_def update_conv')

lemma entryData_JObject [simp]: "entryData (JObject j) = toObject (jvalue j ''data'')"
  by (simp add: entryData_def toObject_def)

lemma entryName_JObject [simp]: "entryName (JObject j) = toString (jvalue j ''name'')"
  by (simp add: entryName_def toObject_def)

lemma entryId_JObject [simp]: "entryId (JObject j) = toString (jvalue j ''id'')"
  by (simp add: entryId_def toObject_def)

lemma addEmote_reject:
  "\<not> entryAccepted cfg kind (JObject (emoteJson d)) \<Longrightarrow>
   addEmote cfg cell d kind w = Inr (None, cell, w)"
proof -
  assume a: "\<not> entryAccepted cfg kind (JObject (emoteJson d))"
  from createEmote_total [of cfg "emoteJson d" "toObject (jvalue (emoteJson d) ''data'')" kind]
  obtain r :: CreateEmoteResult where
    r: "createEmote cfg (emoteJson d) (toObject (jvalue (emoteJson d) ''data'')) kind = Inr r"
    "hasImages r = (chosenFiles cfg (toObject (jvalue (emoteJson d) ''data'')) \<noteq> [])" by blast
  show ?thesis
    using a r by (auto simp: entryAccepted_def addEmote_def Let_def)
qed

lemma addEmote_accept:
  assumes "entryAccepted cfg kind (JObject (emoteJson d))"
  shows "\<exists>r. createEmote cfg (emoteJson d) (toObject (jvalue (emoteJson d) ''data'')) kind = Inr r \<and>
     hasImages r \<and> hasPrimaryImage (emote r) \<and>
     name (emote r) = toString (jvalue (emoteJson d) ''name'') \<and>
     emote_id (emote r) = toString (jvalue (emoteJson d) ''id'') \<and>
     addEmote cfg cell d kind w =
       Inr (Some (EmotePtr (next_addr w) (emote r)),
            MapPtr (Suc (next_addr w))
              (AList.update (toString (jvalue (emoteJson d) ''name''))
                 (EmotePtr (next_addr w) (emote r)) (map_obj cell)),
            w\<lparr>next_addr := Suc (Suc (next_addr w)),
              live := insert (Suc (next_addr w)) (insert (next_addr w) (live w))\<rparr>)"
proof -
  from createEmote_total [of cfg "emoteJson d" "toObject (jvalue (emoteJson d) ''data'')" kind]
  obtain r :: CreateEmoteResult where
    r: "createEmote cfg (emoteJson d) (toObject (jvalue (emoteJson d) ''data'')) kind = Inr r"
    "result_name r = toString (jvalue (emoteJson d) ''name'')"
    "result_id r = toString (jvalue (emoteJson d) ''id'')"
    "name (emote r) = result_name r" "emote_id (emote r) = result_id r"
    "hasImages r = (chosenFiles cfg (toObject (jvalue (emoteJson d) ''data'')) \<noteq> [])"
    "hasPrimaryImage (emote r) = (chosenFiles cfg (toObject (jvalue (emoteJson d) ''data'')) \<noteq> [])"
    by blast
  show ?thesis
    using assms r
    by (auto simp: entryAccepted_def addEmote_def Let_def make_shared_Emote_def
        make_shared_EmoteMap_def)
qed

lemma updateEmote_miss:
  "findEmote (map_obj cell) (emoteName d) (emoteID d) = None \<Longrightarrow>
   updateEmote cell d kind w = Inr (None, cell, w)"
  by (simp add: updateEmote_def)

lemma updateEmote_hit:
  "findEmote (map_obj cell) (emoteName d) (emoteID d) = Some (k, old) \<Longrightarrow>
   updateEmote cell d kind w =
     Inr (Some (fst (createUpdatedEmote old d kind w)),
          MapPtr (Suc (next_addr w))
            (AList.update (emoteName d) (fst (createUpdatedEmote old d kind w))
               (AList.delete (name (obj old)) (map_obj cell))),
          w\<lparr>next_addr := Suc (Suc (next_addr w)),
            live := insert (Suc (next_addr w)) (insert (next_addr w) (live w))\<rparr>)"
  by (simp add: updateEmote_def createUpdatedEmote_def Let_def make_shared_Emote_def
      make_shared_EmoteMap_def)

lemma removeEmote_miss:
  "findEmote (map_obj cell) (emoteName d) (emoteID d) = None \<Longrightarrow>
   removeEmote cell d w = Inr (None, cell, w)"
  by (simp add: removeEmote_def)

lemma removeEmote_hit:
  "findEmote (map_obj cell) (emoteName d) (emoteID d) = Some (k, p) \<Longrightarrow>
   removeEmote cell d w =
     Inr (Some p, MapPtr (next_addr w) (AList.delete k (map_obj cell)),
          w\<lparr>next_addr := Suc (next_addr w), live := insert (next_addr w) (live w)\<rparr>)"
  by (simp add: removeEmote_def make_shared_EmoteMap_def)

lemma createUpdatedEmote_fields:
  "addr (fst (createUpdatedEmote old d kind w)) = next_addr w \<and>
   name (obj (fst (createUpdatedEmote old d kind w))) = emoteName d \<and>
   images (obj (fst (createUpdatedEmote old d kind w))) = images (obj old) \<and>
   emote_id (obj (fst (createUpdatedEmote old d kind w))) = emote_id (obj old) \<and>
   author (obj (fst (createUpdatedEmote old d kind w))) = author (obj old) \<and>
   homePage (obj (fst (createUpdatedEmote old d kind w))) = homePage (obj old) \<and>
   zeroWidth (obj (fst (createUpdatedEmote old d kind w))) = zeroWidth (obj old)"
  by (simp add: createUpdatedEmote_def Let_def make_shared_Emote_def)

lemma createUpdatedEmote_to_base:
  "baseName (obj old) = Some (emoteName d) \<Longrightarrow>
   baseName (obj (fst (createUpdatedEmote old d kind w))) = None \<and>
   tooltip (obj (fst (createUpdatedEmote old d kind w))) =
     createTooltip (emoteName d) (author (obj old)) kind"
  by (simp add: createUpdatedEmote_def Let_def make_shared_Emote_def makeConditionedOptional_def)

lemma createUpdatedEmote_aliased:
  "baseName (obj old) \<noteq> Some (emoteName d) \<Longrightarrow>
   baseName (obj (fst (createUpdatedEmote old d kind w))) =
     Some (case baseName (obj old) of None \<Rightarrow> name (obj old) | Some b \<Rightarrow> b) \<and>
   tooltip (obj (fst (createUpdatedEmote old d kind w))) =
     createAliasedTooltip (emoteName d)
       (case baseName (obj old) of None \<Rightarrow> name (obj old) | Some b \<Rightarrow> b)
       (author (obj old)) kind"
  by (cases "baseName (obj old)")
     (simp_all add: createUpdatedEmote_def Let_def make_shared_Emote_def
        makeConditionedOptional_def)

lemma addEmote_Some:
  assumes "addEmote cfg cell a kind w = Inr (Some p, cell', w')"
  shows "entryAccepted cfg kind (JObject (emoteJson a)) \<and>
         addr p = next_addr w \<and> hasPrimaryImage (obj p) \<and>
         name (obj p) = toString (jvalue (emoteJson a) ''name'') \<and>
         emote_id (obj p) = toString (jvalue (emoteJson a) ''id'') \<and>
         cell' = MapPtr (Suc (next_addr w)) (AList.update (name (obj p)) p (map_obj cell)) \<and>
         w' = w\<lparr>next_addr := Suc (Suc (next_addr w)),
                live := insert (Suc (next_addr w)) (insert (next_addr w) (live w))\<rparr>"
proof -
  have acc: "entryAccepted cfg kind (JObject (emoteJson a))"
  proof (rule ccontr)
    assume "\<not> entryAccepted cfg kind (JObject (emoteJson a))"
    from addEmote_reject [OF this, of cell w] assms show False by simp
  qed
  from addEmote_accept [OF acc, of cell w] assms acc show ?thesis by auto
qed

text \<open>The operations move the world by steps of the relation above.\<close>

lemma two_allocs:
  "world_step\<^sup>*\<^sup>* w
     (w\<lparr>next_addr := Suc (Suc (next_addr w)),
        live := insert (Suc (next_addr w)) (insert (next_addr w) (live w))\<rparr>)"
proof -
  let ?w1 = "w\<lparr>next_addr := Suc (next_addr w), live := insert (next_addr w) (live w)\<rparr>"
  have 1: "world_step w ?w1" by (rule world_step.alloc)
  have "world_step ?w1
      (?w1\<lparr>next_addr := Suc (next_addr ?w1), live := insert (next_addr ?w1) (live ?w1)\<rparr>)"
    by (rule world_step.alloc)
  then have 2: "world_step ?w1
      (w\<lparr>next_addr := Suc (Suc (next_addr w)),
        live := insert (Suc (next_addr w)) (insert (next_addr w) (live w))\<rparr>)"
    by simp
  from 1 2 show ?thesis by (metis rtranclp.rtrancl_into_rtrancl r_into_rtranclp)
qed

lemma addEmote_steps: "addEmote cfg cell a kind w = Inr (r, cell', w') \<Longrightarrow> world_step\<^sup>*\<^sup>* w w'"
proof (cases "entryAccepted cfg kind (JObject (emoteJson a))")
  case True
  assume "addEmote cfg cell a kind w = Inr (r, cell', w')"
  with addEmote_accept [OF True, of cell w] two_allocs [of w] show ?thesis by auto
next
  case False
  assume "addEmote cfg cell a kind w = Inr (r, cell', w')"
  with addEmote_reject [OF False, of cell w] show ?thesis by simp
qed

lemma updateEmote_steps: "updateEmote cell u kind w = Inr (r, cell', w') \<Longrightarrow> world_step\<^sup>*\<^sup>* w w'"
proof (cases "findEmote (map_obj cell) (emoteName u) (emoteID u)")
  case None
  assume "updateEmote cell u kind w = Inr (r, cell', w')"
  with updateEmote_miss [OF None, of kind w] show ?thesis by simp
next
  case (Some it)
  assume a: "updateEmote cell u kind w = Inr (r, cell', w')"
  from Some have "findEmote (map_obj cell) (emoteName u) (emoteID u) = Some (fst it, snd it)"
    by simp
  from updateEmote_hit [OF this, of kind w] a two_allocs [of w] show ?thesis by auto
qed

lemma removeEmote_steps: "removeEmote cell u w = Inr (r, cell', w') \<Longrightarrow> world_step\<^sup>*\<^sup>* w w'"
proof (cases "findEmote (map_obj cell) (emoteName u) (emoteID u)")
  case None
  assume "removeEmote cell u w = Inr (r, cell', w')"
  with removeEmote_miss [OF None, of w] show ?thesis by simp
next
  case (Some it)
  assume a: "removeEmote cell u w = Inr (r, cell', w')"
  from Some have "findEmote (map_obj cell) (emoteName u) (emoteID u) = Some (fst it, snd it)"
    by simp
  from removeEmote_hit [OF this, of w] a world_step.alloc [of w]
  show ?thesis by auto
qed

text \<open>
  The keys of an association list that stands for an \<^verbatim>\<open>EmoteMap\<close> are distinct, as the keys
  of a \<^verbatim>\<open>std::unordered_map\<close> are: the batch builder produces such a list and the
  operations keep the property, so that the length of the list is the size of the map.
\<close>

lemma parseLoop_distinct:
  "distinct (map fst m) \<Longrightarrow> parseLoop cfg kind held es (m, w) = Inr (m', w') \<Longrightarrow>
   distinct (map fst m')"
proof (induction es arbitrary: m w)
  case Nil
  then show ?case by simp
next
  case (Cons e es)
  show ?case
  proof (cases "entryAccepted cfg kind e")
    case True
    from parseLoop_accept [OF True, of held es m w]
    obtain r :: CreateEmoteResult where r:
      "parseLoop cfg kind held (e # es) (m, w) =
         parseLoop cfg kind held es
           (map_assign held (entryName e) (fst (cachedOrMake (emote r) (entryId e) w)) m
              (snd (cachedOrMake (emote r) (entryId e) w)))"
      by blast
    from map_assign_eq obtain w2 where
      w2: "map_assign held (entryName e) (fst (cachedOrMake (emote r) (entryId e) w)) m
             (snd (cachedOrMake (emote r) (entryId e) w)) =
           (AList.update (entryName e) (fst (cachedOrMake (emote r) (entryId e) w)) m, w2)"
      by blast
    have "distinct (map fst (AList.update (entryName e)
        (fst (cachedOrMake (emote r) (entryId e) w)) m))"
      using Cons.prems(1) by (rule distinct_update)
    from Cons.IH [OF this] Cons.prems(2) r w2 show ?thesis by simp
  next
    case False
    from parseLoop_reject [OF False, of held es "(m, w)"] Cons show ?thesis by simp
  qed
qed

lemma parseEmotes_distinct:
  "parseEmotes cfg es kind w = Inr (m, w') \<Longrightarrow> distinct (map fst m)"
  using parseLoop_distinct [of "[]" cfg kind "live w" es w m w'] by (simp add: parseEmotes_def)

lemma operations_distinct:
  assumes "distinct (map fst (map_obj cell))"
  shows "addEmote cfg cell a kind w = Inr (r, cell', w') \<Longrightarrow> distinct (map fst (map_obj cell'))"
    and "updateEmote cell u kind w = Inr (r, cell', w') \<Longrightarrow> distinct (map fst (map_obj cell'))"
    and "removeEmote cell u w = Inr (r, cell', w') \<Longrightarrow> distinct (map fst (map_obj cell'))"
proof -
  assume a: "addEmote cfg cell a kind w = Inr (r, cell', w')"
  show "distinct (map fst (map_obj cell'))"
  proof (cases "entryAccepted cfg kind (JObject (emoteJson a))")
    case True
    from addEmote_accept [OF True, of cell w] a assms show ?thesis
      by (auto simp: distinct_update)
  next
    case False
    from addEmote_reject [OF False, of cell w] a assms show ?thesis by simp
  qed
next
  assume a: "updateEmote cell u kind w = Inr (r, cell', w')"
  show "distinct (map fst (map_obj cell'))"
  proof (cases "findEmote (map_obj cell) (emoteName u) (emoteID u)")
    case None
    from updateEmote_miss [OF None, of kind w] a assms show ?thesis by simp
  next
    case (Some it)
    then have "findEmote (map_obj cell) (emoteName u) (emoteID u) = Some (fst it, snd it)"
      by simp
    from updateEmote_hit [OF this, of kind w] a assms show ?thesis
      by (auto simp: distinct_update distinct_delete)
  qed
next
  assume a: "removeEmote cell u w = Inr (r, cell', w')"
  show "distinct (map fst (map_obj cell'))"
  proof (cases "findEmote (map_obj cell) (emoteName u) (emoteID u)")
    case None
    from removeEmote_miss [OF None, of w] a assms show ?thesis by simp
  next
    case (Some it)
    then have "findEmote (map_obj cell) (emoteName u) (emoteID u) = Some (fst it, snd it)"
      by simp
    from removeEmote_hit [OF this, of w] a assms show ?thesis
      by (auto simp: distinct_delete)
  qed
qed
section \<open>The example inputs, evaluated\<close>

lemma createImageSet_example3:
  "\<not> allowAvifImages cfg \<Longrightarrow> createImageSet cfg (example_data example_files3) = Inr example_images"
  by (simp add: createImageSet_def targetFormat_def example_files3_def json_simps
        example_simps static_cast_int_def ddiv_def array_at_put_def resolveLargest_def
        isEmpty_def padLoop.simps example_images_def)

lemma entry_example [simp]:
  "entryData (example_entry ident nm) = example_data example_files3"
  "entryName (example_entry ident nm) = nm"
  "entryId (example_entry ident nm) = ident"
  by (simp_all add: example_entry_def entryData_def entryName_def entryId_def json_simps)

lemma createEmote_example:
  "createEmote example_cfg (toObject (example_entry ident nm)) (example_data example_files3) kind =
     Inr \<lparr>emote = example_emote ident nm kind, result_id = ident, result_name = nm,
          hasImages = True\<rparr>"
proof -
  have c: "createImageSet example_cfg (example_data example_files3) = Inr example_images"
    by (rule createImageSet_example3) (simp add: example_cfg_def)
  have o: "toObject (example_entry ident nm) =
             [(''id'', JString ident), (''name'', JString nm),
              (''data'', JObject (example_data example_files3))]"
    by (simp add: example_entry_def toObject_def)
  have d: "jvalue (example_data example_files3) ''name'' = JString ''poggers''"
    "jvalue (example_data example_files3) ''owner'' = JUndefined"
    by (simp_all add: example_data_def jvalue_def)
  show ?thesis
    unfolding createEmote_def c o d
    by (simp add: toString_def toObject_def jvalue_def toInt_def isZeroWidthActive_def
        example_cfg_def example_emote_def example_images_def isEmpty_def
        makeConditionedOptional_def EMOTE_LINK_FORMAT_def Let_def)
qed

lemma entryAccepted_example: "entryAccepted example_cfg Channel (example_entry ident nm)"
proof -
  have "chosenFiles example_cfg (example_data example_files3) = example_files3"
    by (rule chosenFiles_example3)
  moreover have "example_files3 \<noteq> []" by (simp add: example_files3_def)
  moreover have "checkEmoteVisibility example_cfg (example_data example_files3) Channel"
    by (simp add: checkEmoteVisibility_def example_data_def example_cfg_def json_simps)
  moreover have "example_data example_files3 \<noteq> []" by (simp add: example_data_def)
  ultimately show ?thesis by (simp add: entryAccepted_def)
qed

lemma addEmote_example:
  "addEmote example_cfg cell \<lparr>emoteJson = toObject (example_entry ident nm)\<rparr> Channel w =
     Inr (Some (EmotePtr (next_addr w) (example_emote ident nm Channel)),
          MapPtr (Suc (next_addr w))
            (AList.update nm (EmotePtr (next_addr w) (example_emote ident nm Channel))
               (map_obj cell)),
          w\<lparr>next_addr := Suc (Suc (next_addr w)),
            live := insert (Suc (next_addr w)) (insert (next_addr w) (live w))\<rparr>)"
proof -
  have j: "JObject (toObject (example_entry ident nm)) = example_entry ident nm"
    by (simp add: example_entry_def toObject_def)
  have d: "toObject (jvalue (toObject (example_entry ident nm)) ''data'') =
             example_data example_files3"
    using entry_example(1) [of ident nm] by (simp add: entryData_def)
  have n: "toString (jvalue (toObject (example_entry ident nm)) ''name'') = nm"
    using entry_example(2) [of ident nm] by (simp add: entryName_def)
  from addEmote_accept [of example_cfg Channel "\<lparr>emoteJson = toObject (example_entry ident nm)\<rparr>" cell w]
    entryAccepted_example [of ident nm]
  show ?thesis
    by (auto simp: j d n createEmote_example)
qed

lemma world_ok_example: "world_ok example_world"
  by (simp add: world_ok_def example_world_def)

lemma parseLoop_example:
  "parseLoop example_cfg Channel held (example_entry ident nm # es) (m, w) =
     parseLoop example_cfg Channel held es
       (map_assign held nm (fst (cachedOrMake (example_emote ident nm Channel) ident w)) m
          (snd (cachedOrMake (example_emote ident nm Channel) ident w)))"
  using parseLoop_accept [OF entryAccepted_example [of ident nm], of held es m w]
  by (auto simp: createEmote_example)

lemmas cache_simps =
  cachedOrMake_def cachedOrMakeEmotePtr_def weak_lock_def make_shared_Emote_def
  map_assign_def Let_def

lemma example_rejected:
  "\<not> entryAccepted example_cfg Channel JNull"
  "\<not> entryAccepted example_cfg Channel example_unlisted"
  "\<not> entryAccepted example_cfg Channel example_bad_files"
  by (simp_all add: entryAccepted_def entryData_def checkEmoteVisibility_def chosenFiles_def
      hostFiles_def example_unlisted_def example_bad_files_def example_cfg_def json_simps)

lemma example_batch_filter:
  "filter (entryAccepted example_cfg Channel) example_batch =
     [example_entry ''1'' ''pog'', example_entry ''2'' ''kek'']"
  by (simp add: example_batch_def example_rejected entryAccepted_example)

lemma example_batch_names:
  "entryName JNull = []" "entryName example_unlisted = ''hid''"
  "entryName example_bad_files = ''bad''"
  by (simp_all add: entryName_def example_unlisted_def example_bad_files_def json_simps)

lemma parseEmotes_example2:
  "parseEmotes example_cfg [example_entry ''1'' ''pog'', example_entry ''2'' ''kek''] Channel
     example_world =
   Inr ([(''pog'', EmotePtr 1 (example_emote ''1'' ''pog'' Channel)),
         (''kek'', EmotePtr 2 (example_emote ''2'' ''kek'' Channel))],
        \<lparr>next_addr = 3, live = {2, 1, 0},
         cache = (\<lambda>i. None)(''1'' \<mapsto> EmotePtr 1 (example_emote ''1'' ''pog'' Channel),
                              ''2'' \<mapsto> EmotePtr 2 (example_emote ''2'' ''kek'' Channel))\<rparr>)"
  by (simp add: parseEmotes_def parseLoop_example cache_simps example_world_def
      numeral_2_eq_2 numeral_3_eq_3 del: parseLoop.simps(2))

text \<open>
  A batch that overwrites a record it has made itself: the record of the identifier \<open>1\<close>
  stored under \<open>a\<close> is destroyed when the entry of the identifier \<open>2\<close> takes the name
  \<open>a\<close>, so the third entry finds no live record in the cache and gets a new one.
\<close>

lemma parseEmotes_example_overwrite:
  "parseEmotes example_cfg
     [example_entry ''1'' ''a'', example_entry ''2'' ''a'', example_entry ''1'' ''b''] Channel
     example_world =
   Inr ([(''a'', EmotePtr 2 (example_emote ''2'' ''a'' Channel)),
         (''b'', EmotePtr 3 (example_emote ''1'' ''b'' Channel))],
        \<lparr>next_addr = 4, live = {3, 2, 0},
         cache = (\<lambda>i. None)(''1'' \<mapsto> EmotePtr 3 (example_emote ''1'' ''b'' Channel),
                              ''2'' \<mapsto> EmotePtr 2 (example_emote ''2'' ''a'' Channel))\<rparr>)"
  by (auto simp add: parseEmotes_def parseLoop_example cache_simps example_world_def
      numeral_2_eq_2 numeral_3_eq_3 fun_eq_iff simp del: parseLoop.simps(2))
section \<open>The incremental operations: the claims\<close>

subsection \<open>Update: the replacement record\<close>

text \<open>
  Claim C2, as stated, says that an update which does not resolve to the base sets the
  base name of the replacement to the old record's prior display name. The code takes
  the old record's base name when it has one (\<^verbatim>\<open>oldEmote->baseName.value_or(oldEmote->name)\<close>):
  renaming the record \<open>pog\<close>, an alias of \<open>poggers\<close>, to \<open>pog2\<close> leaves the base name
  \<open>poggers\<close>, not \<open>pog\<close>.
\<close>

theorem updateEmote_base_name_counterexample:
  "findEmote example_map2 ''pog2'' ''1'' =
     Some (''pog'', EmotePtr 1 (example_emote ''1'' ''pog'' Channel)) \<and>
   name (example_emote ''1'' ''pog'' Channel) = ''pog'' \<and>
   baseName (example_emote ''1'' ''pog'' Channel) = Some ''poggers'' \<and>
   map_option (\<lambda>p. baseName (obj p))
     (returned (updateEmote example_cell2 \<lparr>emoteID = ''1'', emoteName = ''pog2''\<rparr> Channel
        example_world2)) = Some (Some ''poggers'') \<and>
   Some ''poggers'' \<noteq> Some ''pog''"
proof -
  have f: "findEmote example_map2 ''pog2'' ''1'' =
     Some (''pog'', EmotePtr 1 (example_emote ''1'' ''pog'' Channel))"
    by (simp add: findEmote_def example_map2_def example_emote_def)
  then have "findEmote (map_obj example_cell2)
      (emoteName \<lparr>emoteID = ''1'', emoteName = ''pog2''\<rparr>)
      (emoteID \<lparr>emoteID = ''1'', emoteName = ''pog2''\<rparr>) =
     Some (''pog'', EmotePtr 1 (example_emote ''1'' ''pog'' Channel))"
    by (simp add: example_cell2_def)
  from updateEmote_hit [OF this, of Channel example_world2] f show ?thesis
    by (simp add: returned_def createUpdatedEmote_def make_shared_Emote_def Let_def
        example_emote_def makeConditionedOptional_def)
qed

text \<open>
  Claim C2, amended: for every update that locates a record of the collection, the
  update resolves to the base iff the located record has a base name and the incoming
  display name equals it. The replacement is returned and stored under the incoming
  display name; it keeps the images, identifier, author, link and zero-width flag of
  the old record. When the update resolves to the base, the replacement has no base name
  and the tooltip of the non-aliased form; otherwise its base name is the old record's
  base name if it has one and the old record's display name if it has none, and the
  tooltip has the aliased form with that base name.
\<close>

theorem updateEmote_replacement:
  assumes "findEmote (map_obj cell) (emoteName d) (emoteID d) = Some (k, old)"
  shows "\<exists>p cell' w'.
      updateEmote cell d kind w = Inr (Some p, cell', w') \<and>
      map_of (map_obj cell') (emoteName d) = Some p \<and>
      name (obj p) = emoteName d \<and>
      images (obj p) = images (obj old) \<and>
      emote_id (obj p) = emote_id (obj old) \<and>
      author (obj p) = author (obj old) \<and>
      homePage (obj p) = homePage (obj old) \<and>
      zeroWidth (obj p) = zeroWidth (obj old) \<and>
      (if baseName (obj old) = Some (emoteName d)
       then baseName (obj p) = None \<and>
            tooltip (obj p) = createTooltip (emoteName d) (author (obj old)) kind
       else baseName (obj p) =
              Some (case baseName (obj old) of None \<Rightarrow> name (obj old) | Some b \<Rightarrow> b) \<and>
            tooltip (obj p) =
              createAliasedTooltip (emoteName d)
                (case baseName (obj old) of None \<Rightarrow> name (obj old) | Some b \<Rightarrow> b)
                (author (obj old)) kind)"
proof -
  define p where "p = fst (createUpdatedEmote old d kind w)"
  have u: "updateEmote cell d kind w =
     Inr (Some p,
          MapPtr (Suc (next_addr w))
            (AList.update (emoteName d) p (AList.delete (name (obj old)) (map_obj cell))),
          w\<lparr>next_addr := Suc (Suc (next_addr w)),
            live := insert (Suc (next_addr w)) (insert (next_addr w) (live w))\<rparr>)"
    using updateEmote_hit [OF assms, of kind w] by (simp add: p_def)
  have m: "map_of (AList.update (emoteName d) p (AList.delete (name (obj old)) (map_obj cell)))
             (emoteName d) = Some p"
    by (simp add: update_conv')
  have fields: "name (obj p) = emoteName d" "images (obj p) = images (obj old)"
    "emote_id (obj p) = emote_id (obj old)" "author (obj p) = author (obj old)"
    "homePage (obj p) = homePage (obj old)" "zeroWidth (obj p) = zeroWidth (obj old)"
    using createUpdatedEmote_fields [of old d kind w] by (simp_all add: p_def)
  have tip: "if baseName (obj old) = Some (emoteName d)
       then baseName (obj p) = None \<and>
            tooltip (obj p) = createTooltip (emoteName d) (author (obj old)) kind
       else baseName (obj p) =
              Some (case baseName (obj old) of None \<Rightarrow> name (obj old) | Some b \<Rightarrow> b) \<and>
            tooltip (obj p) =
              createAliasedTooltip (emoteName d)
                (case baseName (obj old) of None \<Rightarrow> name (obj old) | Some b \<Rightarrow> b)
                (author (obj old)) kind"
    using createUpdatedEmote_to_base [of old d kind w]
      createUpdatedEmote_aliased [of old d kind w]
    by (simp add: p_def)
  from u m fields tip show ?thesis by simp
qed

theorem updateEmote_replacement_witness:
  "(\<exists>p cell' w'.
      updateEmote example_cell2 \<lparr>emoteID = ''1'', emoteName = ''poggers''\<rparr> Channel
        example_world2 = Inr (Some p, cell', w') \<and>
      name (obj p) = ''poggers'' \<and> images (obj p) = example_images \<and>
      emote_id (obj p) = ''1'' \<and> baseName (obj p) = None \<and>
      tooltip (obj p) = ''poggers<br>Channel 7TV Emote<br>By: <deleted>'') \<and>
   (\<exists>p cell' w'.
      updateEmote example_cell2 \<lparr>emoteID = ''1'', emoteName = ''pog2''\<rparr> Channel
        example_world2 = Inr (Some p, cell', w') \<and>
      name (obj p) = ''pog2'' \<and> baseName (obj p) = Some ''poggers'' \<and>
      tooltip (obj p) = ''pog2<br>Alias of poggers<br>Channel 7TV Emote<br>By: <deleted>'')"
proof -
  have f1: "findEmote (map_obj example_cell2)
      (emoteName \<lparr>emoteID = ''1'', emoteName = ''poggers''\<rparr>)
      (emoteID \<lparr>emoteID = ''1'', emoteName = ''poggers''\<rparr>) =
     Some (''pog'', EmotePtr 1 (example_emote ''1'' ''pog'' Channel))"
    by (simp add: findEmote_def example_cell2_def example_map2_def example_emote_def)
  have f2: "findEmote (map_obj example_cell2)
      (emoteName \<lparr>emoteID = ''1'', emoteName = ''pog2''\<rparr>)
      (emoteID \<lparr>emoteID = ''1'', emoteName = ''pog2''\<rparr>) =
     Some (''pog'', EmotePtr 1 (example_emote ''1'' ''pog'' Channel))"
    by (simp add: findEmote_def example_cell2_def example_map2_def example_emote_def)
  from updateEmote_replacement [OF f1, of Channel example_world2]
    updateEmote_replacement [OF f2, of Channel example_world2]
  show ?thesis
    by (simp add: example_emote_def createTooltip_def createAliasedTooltip_def) blast
qed

subsection \<open>The paths without a change\<close>

text \<open>
  Claim C5: an Add whose entry has no metadata, fails the visibility policy or builds a
  record without images returns nothing and leaves the cell (the same collection
  instance) and the world as they were; so do an Update and a Remove whose lookup by
  display name or identifier misses. Conversely, whenever one of the three operations
  returns nothing, the cell and the world are unchanged.
\<close>

theorem no_change_paths:
  "((toObject (jvalue (emoteJson a) ''data'') = [] \<or>
     \<not> checkEmoteVisibility cfg (toObject (jvalue (emoteJson a) ''data'')) kind \<or>
     (\<exists>r. createEmote cfg (emoteJson a) (toObject (jvalue (emoteJson a) ''data'')) kind = Inr r \<and>
          \<not> hasImages r)) \<longrightarrow>
    addEmote cfg cell a kind w = Inr (None, cell, w)) \<and>
   (findEmote (map_obj cell) (emoteName u) (emoteID u) = None \<longrightarrow>
    updateEmote cell u kind w = Inr (None, cell, w) \<and>
    removeEmote cell u w = Inr (None, cell, w)) \<and>
   (\<forall>cell' w'.
      addEmote cfg cell a kind w = Inr (None, cell', w') \<or>
      updateEmote cell u kind w = Inr (None, cell', w') \<or>
      removeEmote cell u w = Inr (None, cell', w') \<longrightarrow>
      cell' = cell \<and> w' = w)"
proof (intro conjI impI allI)
  assume "toObject (jvalue (emoteJson a) ''data'') = [] \<or>
     \<not> checkEmoteVisibility cfg (toObject (jvalue (emoteJson a) ''data'')) kind \<or>
     (\<exists>r. createEmote cfg (emoteJson a) (toObject (jvalue (emoteJson a) ''data'')) kind = Inr r \<and>
          \<not> hasImages r)"
  then show "addEmote cfg cell a kind w = Inr (None, cell, w)"
    by (auto simp: addEmote_def Let_def)
next
  assume "findEmote (map_obj cell) (emoteName u) (emoteID u) = None"
  then show "updateEmote cell u kind w = Inr (None, cell, w)"
    by (rule updateEmote_miss)
next
  assume "findEmote (map_obj cell) (emoteName u) (emoteID u) = None"
  then show "removeEmote cell u w = Inr (None, cell, w)"
    by (rule removeEmote_miss)
next
  fix cell' w'
  assume r: "addEmote cfg cell a kind w = Inr (None, cell', w') \<or>
      updateEmote cell u kind w = Inr (None, cell', w') \<or>
      removeEmote cell u w = Inr (None, cell', w')"
  have add: "cell' = cell \<and> w' = w" if "addEmote cfg cell a kind w = Inr (None, cell', w')"
  proof (cases "entryAccepted cfg kind (JObject (emoteJson a))")
    case True
    from addEmote_accept [OF True, of cell w] that show ?thesis by auto
  next
    case False
    from addEmote_reject [OF False, of cell w] that show ?thesis by simp
  qed
  have upd: "cell' = cell \<and> w' = w" if "updateEmote cell u kind w = Inr (None, cell', w')"
  proof (cases "findEmote (map_obj cell) (emoteName u) (emoteID u)")
    case None
    from updateEmote_miss [OF None, of kind w] that show ?thesis by simp
  next
    case (Some it)
    then have "findEmote (map_obj cell) (emoteName u) (emoteID u) = Some (fst it, snd it)"
      by simp
    from updateEmote_hit [OF this, of kind w] that show ?thesis by simp
  qed
  have rem: "cell' = cell \<and> w' = w" if "removeEmote cell u w = Inr (None, cell', w')"
  proof (cases "findEmote (map_obj cell) (emoteName u) (emoteID u)")
    case None
    from removeEmote_miss [OF None, of w] that show ?thesis by simp
  next
    case (Some it)
    then have "findEmote (map_obj cell) (emoteName u) (emoteID u) = Some (fst it, snd it)"
      by simp
    from removeEmote_hit [OF this, of w] that show ?thesis by simp
  qed
  from r add upd rem show "cell' = cell" by blast
  from r add upd rem show "w' = w" by blast
qed

theorem no_change_paths_witness:
  "addEmote example_cfg example_cell2 \<lparr>emoteJson = [(''id'', JString ''7''), (''name'', JString ''lol'')]\<rparr>
     Channel example_world2 = Inr (None, example_cell2, example_world2) \<and>
   addEmote example_cfg example_cell2
     \<lparr>emoteJson = [(''id'', JString ''7''), (''name'', JString ''lol''),
                  (''data'', JObject [(''name'', JString ''lol''), (''listed'', JBool False)])]\<rparr>
     Channel example_world2 = Inr (None, example_cell2, example_world2) \<and>
   addEmote example_cfg example_cell2
     \<lparr>emoteJson = [(''id'', JString ''7''), (''name'', JString ''lol''),
                  (''data'', JObject (example_data []))]\<rparr>
     Channel example_world2 = Inr (None, example_cell2, example_world2) \<and>
   updateEmote example_cell2 \<lparr>emoteID = ''7'', emoteName = ''lol''\<rparr> Channel example_world2 =
     Inr (None, example_cell2, example_world2) \<and>
   removeEmote example_cell2 \<lparr>emoteID = ''7'', emoteName = ''lol''\<rparr> example_world2 =
     Inr (None, example_cell2, example_world2)"
proof -
  have f: "findEmote (map_obj example_cell2) ''lol'' ''7'' = None"
    by (simp add: findEmote_def example_cell2_def example_map2_def example_emote_def)
  have n: "createEmote example_cfg
       [(''id'', JString ''7''), (''name'', JString ''lol''), (''data'', JObject (example_data []))]
       (example_data []) Channel =
     Inr \<lparr>emote = \<lparr>name = ''lol'', images = ImageSet_default,
                   tooltip = ''lol<br>Alias of poggers<br>Channel 7TV Emote<br>By: <deleted>'',
                   homePage = ''https://7tv.app/emotes/7'', zeroWidth = False,
                   emote_id = ''7'', author = [], baseName = Some ''poggers''\<rparr>,
          result_id = ''7'', result_name = ''lol'', hasImages = False\<rparr>"
    by (simp add: createEmote_def createImageSet_def targetFormat_def json_simps example_simps
        isZeroWidthActive_def createAliasedTooltip_def makeConditionedOptional_def
        EMOTE_LINK_FORMAT_def ImageSet_default_def isEmpty_def Let_def)
  show ?thesis
    using no_change_paths
        [where a = "\<lparr>emoteJson = [(''id'', JString ''7''), (''name'', JString ''lol'')]\<rparr>"
          and cfg = example_cfg and kind = Channel and cell = example_cell2
          and u = "\<lparr>emoteID = ''7'', emoteName = ''lol''\<rparr>" and w = example_world2]
      no_change_paths
        [where a = "\<lparr>emoteJson = [(''id'', JString ''7''), (''name'', JString ''lol''),
                  (''data'', JObject [(''name'', JString ''lol''), (''listed'', JBool False)])]\<rparr>"
          and cfg = example_cfg and kind = Channel and cell = example_cell2
          and u = "\<lparr>emoteID = ''7'', emoteName = ''lol''\<rparr>" and w = example_world2]
      no_change_paths
        [where a = "\<lparr>emoteJson = [(''id'', JString ''7''), (''name'', JString ''lol''),
                  (''data'', JObject (example_data []))]\<rparr>"
          and cfg = example_cfg and kind = Channel and cell = example_cell2
          and u = "\<lparr>emoteID = ''7'', emoteName = ''lol''\<rparr>" and w = example_world2]
      f n
    by (simp add: json_simps checkEmoteVisibility_def example_cfg_def)
qed

subsection \<open>The round trip of a renamed record\<close>

text \<open>
  Claim C7: an accepted entry with the display name \<open>pog\<close> whose metadata has the name
  \<open>poggers\<close> is added to a collection in which the names \<open>poggers\<close> and \<open>pog2\<close> are free
  and no record under another name than \<open>pog\<close> has the identifier of the entry (the
  empty collection is one). Add returns a record that is an alias of \<open>poggers\<close> and
  publishes it under \<open>pog\<close>. The Update of this identifier to the display name \<open>poggers\<close>
  locates that record, returns a record without a base name whose tooltip has the
  non-aliased form, and publishes it under \<open>poggers\<close> in place of \<open>pog\<close>. The further
  Update to \<open>pog2\<close> locates this second record and returns a record whose base name is
  \<open>poggers\<close>, with the aliased tooltip, published under \<open>pog2\<close> in place of \<open>poggers\<close>.
\<close>

theorem alias_round_trip:
  assumes acc: "entryAccepted cfg kind (JObject j)"
    and nm: "toString (jvalue j ''name'') = ''pog''"
    and base: "toString (jvalue (toObject (jvalue j ''data'')) ''name'') = ''poggers''"
    and fresh: "''poggers'' \<notin> fst ` set (map_obj cell)" "''pog2'' \<notin> fst ` set (map_obj cell)"
    and ids: "\<forall>(k, p) \<in> set (map_obj cell).
                k \<noteq> ''pog'' \<longrightarrow> emote_id (obj p) \<noteq> toString (jvalue j ''id'')"
  shows "\<exists>p0 cell1 w1 p1 cell2 w2 p2 cell3 w3.
     addEmote cfg cell \<lparr>emoteJson = j\<rparr> kind w = Inr (Some p0, cell1, w1) \<and>
     name (obj p0) = ''pog'' \<and> baseName (obj p0) = Some ''poggers'' \<and>
     map_of (map_obj cell1) ''pog'' = Some p0 \<and>
     findEmote (map_obj cell1) ''poggers'' (toString (jvalue j ''id'')) = Some (''pog'', p0) \<and>
     updateEmote cell1 \<lparr>emoteID = toString (jvalue j ''id''), emoteName = ''poggers''\<rparr> kind w1 =
       Inr (Some p1, cell2, w2) \<and>
     name (obj p1) = ''poggers'' \<and> baseName (obj p1) = None \<and>
     tooltip (obj p1) = createTooltip ''poggers'' (author (obj p0)) kind \<and>
     map_of (map_obj cell2) ''poggers'' = Some p1 \<and> map_of (map_obj cell2) ''pog'' = None \<and>
     findEmote (map_obj cell2) ''pog2'' (toString (jvalue j ''id'')) = Some (''poggers'', p1) \<and>
     updateEmote cell2 \<lparr>emoteID = toString (jvalue j ''id''), emoteName = ''pog2''\<rparr> kind w2 =
       Inr (Some p2, cell3, w3) \<and>
     name (obj p2) = ''pog2'' \<and> baseName (obj p2) = Some ''poggers'' \<and>
     tooltip (obj p2) = createAliasedTooltip ''pog2'' ''poggers'' (author (obj p0)) kind \<and>
     map_of (map_obj cell3) ''pog2'' = Some p2 \<and> map_of (map_obj cell3) ''poggers'' = None"
proof -
  let ?i = "toString (jvalue j ''id'')"
  let ?d1 = "\<lparr>emoteID = ?i, emoteName = ''poggers''\<rparr>"
  let ?d2 = "\<lparr>emoteID = ?i, emoteName = ''pog2''\<rparr>"
  have acc': "entryAccepted cfg kind (JObject (emoteJson \<lparr>emoteJson = j\<rparr>))"
    using acc by simp
  from addEmote_accept [OF acc', of cell w]
  obtain r :: CreateEmoteResult where
    r: "createEmote cfg j (toObject (jvalue j ''data'')) kind = Inr r"
    and n0: "name (emote r) = toString (jvalue j ''name'')"
    and i0: "emote_id (emote r) = ?i"
    and add: "addEmote cfg cell \<lparr>emoteJson = j\<rparr> kind w =
       Inr (Some (EmotePtr (next_addr w) (emote r)),
            MapPtr (Suc (next_addr w))
              (AList.update (toString (jvalue j ''name''))
                 (EmotePtr (next_addr w) (emote r)) (map_obj cell)),
            w\<lparr>next_addr := Suc (Suc (next_addr w)),
              live := insert (Suc (next_addr w)) (insert (next_addr w) (live w))\<rparr>)"
    by auto
  define p0 where "p0 = EmotePtr (next_addr w) (emote r)"
  define m1 where "m1 = AList.update ''pog'' p0 (map_obj cell)"
  define cell1 where "cell1 = MapPtr (Suc (next_addr w)) m1"
  define w1 where "w1 = w\<lparr>next_addr := Suc (Suc (next_addr w)),
              live := insert (Suc (next_addr w)) (insert (next_addr w) (live w))\<rparr>"
  have a0: "addEmote cfg cell \<lparr>emoteJson = j\<rparr> kind w = Inr (Some p0, cell1, w1)"
    using add nm by (simp add: p0_def m1_def cell1_def w1_def)
  from createEmote_alias [OF r] nm base have b0: "baseName (emote r) = Some ''poggers''"
    by simp
  have s0: "name (obj p0) = ''pog''" "baseName (obj p0) = Some ''poggers''"
    "emote_id (obj p0) = ?i"
    using n0 nm b0 i0 by (simp_all add: p0_def)
  have l1: "map_of m1 ''pog'' = Some p0" by (simp add: m1_def update_conv')
  have n1: "map_of (map_obj cell) ''poggers'' = None" "map_of (map_obj cell) ''pog2'' = None"
    using fresh by (simp_all add: map_of_eq_None_iff)
  have f1: "findEmote m1 ''poggers'' ?i = Some (''pog'', p0)"
    unfolding m1_def using n1(1) _ s0(3) ids by (rule findEmote_by_id) simp
  define p1 where "p1 = fst (createUpdatedEmote p0 ?d1 kind w1)"
  define m2 where "m2 = AList.update ''poggers'' p1 (AList.delete ''pog'' m1)"
  define cell2 where "cell2 = MapPtr (Suc (next_addr w1)) m2"
  define w2 where "w2 = w1\<lparr>next_addr := Suc (Suc (next_addr w1)),
              live := insert (Suc (next_addr w1)) (insert (next_addr w1) (live w1))\<rparr>"
  have f1': "findEmote (map_obj cell1) (emoteName ?d1) (emoteID ?d1) = Some (''pog'', p0)"
    using f1 by (simp add: cell1_def)
  have u1: "updateEmote cell1 ?d1 kind w1 = Inr (Some p1, cell2, w2)"
    using updateEmote_hit [OF f1', of kind w1] s0(1)
    by (simp add: p1_def m2_def cell2_def w2_def cell1_def)
  have s1: "name (obj p1) = ''poggers''" "baseName (obj p1) = None"
    "tooltip (obj p1) = createTooltip ''poggers'' (author (obj p0)) kind"
    "emote_id (obj p1) = ?i" "author (obj p1) = author (obj p0)"
    using createUpdatedEmote_fields [of p0 ?d1 kind w1]
      createUpdatedEmote_to_base [of p0 ?d1 kind w1] s0
    by (simp_all add: p1_def)
  have l2: "map_of m2 ''poggers'' = Some p1" "map_of m2 ''pog'' = None"
    by (simp_all add: m2_def update_conv' delete_conv')
  have n2: "map_of (AList.delete ''pog'' m1) ''pog2'' = None"
    using n1(2) by (simp add: m1_def update_conv' delete_conv')
  have i2: "\<forall>(k, p) \<in> set (AList.delete ''pog'' m1).
      k \<noteq> ''poggers'' \<longrightarrow> emote_id (obj p) \<noteq> ?i"
  proof -
    have "emote_id (obj (snd x)) \<noteq> ?i" if "x \<in> set (AList.delete ''pog'' m1)" for x
    proof -
      from that have x: "x \<in> set m1" "fst x \<noteq> ''pog''" by (simp_all add: set_delete)
      with set_update_subset [of "''pog''" p0 "map_obj cell"] have "x \<in> set (map_obj cell)"
        unfolding m1_def by auto
      with ids x(2) show ?thesis by auto
    qed
    then show ?thesis by auto
  qed
  have f2: "findEmote m2 ''pog2'' ?i = Some (''poggers'', p1)"
    unfolding m2_def using n2 _ s1(4) i2 by (rule findEmote_by_id) simp
  define p2 where "p2 = fst (createUpdatedEmote p1 ?d2 kind w2)"
  define m3 where "m3 = AList.update ''pog2'' p2 (AList.delete ''poggers'' m2)"
  define cell3 where "cell3 = MapPtr (Suc (next_addr w2)) m3"
  define w3 where "w3 = w2\<lparr>next_addr := Suc (Suc (next_addr w2)),
              live := insert (Suc (next_addr w2)) (insert (next_addr w2) (live w2))\<rparr>"
  have f2': "findEmote (map_obj cell2) (emoteName ?d2) (emoteID ?d2) = Some (''poggers'', p1)"
    using f2 by (simp add: cell2_def)
  have u2: "updateEmote cell2 ?d2 kind w2 = Inr (Some p2, cell3, w3)"
    using updateEmote_hit [OF f2', of kind w2] s1(1)
    by (simp add: p2_def m3_def cell3_def w3_def cell2_def)
  have s2: "name (obj p2) = ''pog2''" "baseName (obj p2) = Some ''poggers''"
    "tooltip (obj p2) = createAliasedTooltip ''pog2'' ''poggers'' (author (obj p0)) kind"
    using createUpdatedEmote_fields [of p1 ?d2 kind w2]
      createUpdatedEmote_aliased [of p1 ?d2 kind w2] s1
    by (simp_all add: p2_def)
  have l3: "map_of m3 ''pog2'' = Some p2" "map_of m3 ''poggers'' = None"
    by (simp_all add: m3_def update_conv' delete_conv')
  show ?thesis
    apply (rule exI [of _ p0], rule exI [of _ cell1], rule exI [of _ w1])
    apply (rule exI [of _ p1], rule exI [of _ cell2], rule exI [of _ w2])
    apply (rule exI [of _ p2], rule exI [of _ cell3], rule exI [of _ w3])
    using a0 s0(1,2) l1 f1 u1 s1(1,2,3) l2 f2 u2 s2 l3
    apply (simp add: cell1_def cell2_def cell3_def)
    done
qed

theorem alias_round_trip_witness:
  "\<exists>p0 cell1 w1 p1 cell2 w2 p2 cell3 w3.
     addEmote example_cfg example_cell2 \<lparr>emoteJson = toObject (example_entry ''9'' ''pog'')\<rparr>
       Channel example_world2 = Inr (Some p0, cell1, w1) \<and>
     p0 = EmotePtr 5 (example_emote ''9'' ''pog'' Channel) \<and>
     baseName (obj p0) = Some ''poggers'' \<and>
     map_of (map_obj cell1) ''pog'' = Some p0 \<and>
     updateEmote cell1 \<lparr>emoteID = ''9'', emoteName = ''poggers''\<rparr> Channel w1 =
       Inr (Some p1, cell2, w2) \<and>
     name (obj p1) = ''poggers'' \<and> baseName (obj p1) = None \<and>
     tooltip (obj p1) = ''poggers<br>Channel 7TV Emote<br>By: <deleted>'' \<and>
     map_of (map_obj cell2) ''poggers'' = Some p1 \<and> map_of (map_obj cell2) ''pog'' = None \<and>
     updateEmote cell2 \<lparr>emoteID = ''9'', emoteName = ''pog2''\<rparr> Channel w2 =
       Inr (Some p2, cell3, w3) \<and>
     name (obj p2) = ''pog2'' \<and> baseName (obj p2) = Some ''poggers'' \<and>
     tooltip (obj p2) = ''pog2<br>Alias of poggers<br>Channel 7TV Emote<br>By: <deleted>'' \<and>
     map_of (map_obj cell3) ''pog2'' = Some p2 \<and> map_of (map_obj cell3) ''poggers'' = None"
proof -
  let ?j = "toObject (example_entry ''9'' ''pog'')"
  have acc: "entryAccepted example_cfg Channel (JObject ?j)"
    using entryAccepted_example [of "''9''" "''pog''"]
    by (simp add: example_entry_def toObject_def)
  have nm: "toString (jvalue ?j ''name'') = ''pog''"
    and ident: "toString (jvalue ?j ''id'') = ''9''"
    by (simp_all add: example_entry_def json_simps)
  have base: "toString (jvalue (toObject (jvalue ?j ''data'')) ''name'') = ''poggers''"
    by (simp add: example_entry_def example_data_def json_simps)
  have fresh: "''poggers'' \<notin> fst ` set (map_obj example_cell2)"
    "''pog2'' \<notin> fst ` set (map_obj example_cell2)"
    by (simp_all add: example_cell2_def example_map2_def)
  have ids: "\<forall>(k, p) \<in> set (map_obj example_cell2).
      k \<noteq> ''pog'' \<longrightarrow> emote_id (obj p) \<noteq> toString (jvalue ?j ''id'')"
    by (simp add: ident example_cell2_def example_map2_def example_emote_def)
  from alias_round_trip [OF acc nm base fresh ids, of example_world2]
  obtain p0 cell1 w1 p1 cell2 w2 p2 cell3 w3 where
    a: "addEmote example_cfg example_cell2 \<lparr>emoteJson = ?j\<rparr> Channel example_world2 =
          Inr (Some p0, cell1, w1)"
    and s0: "baseName (obj p0) = Some ''poggers''" "map_of (map_obj cell1) ''pog'' = Some p0"
    and u1: "updateEmote cell1 \<lparr>emoteID = ''9'', emoteName = ''poggers''\<rparr> Channel w1 =
          Inr (Some p1, cell2, w2)"
    and s1: "name (obj p1) = ''poggers''" "baseName (obj p1) = None"
      "tooltip (obj p1) = createTooltip ''poggers'' (author (obj p0)) Channel"
      "map_of (map_obj cell2) ''poggers'' = Some p1" "map_of (map_obj cell2) ''pog'' = None"
    and u2: "updateEmote cell2 \<lparr>emoteID = ''9'', emoteName = ''pog2''\<rparr> Channel w2 =
          Inr (Some p2, cell3, w3)"
    and s2: "name (obj p2) = ''pog2''" "baseName (obj p2) = Some ''poggers''"
      "tooltip (obj p2) = createAliasedTooltip ''pog2'' ''poggers'' (author (obj p0)) Channel"
      "map_of (map_obj cell3) ''pog2'' = Some p2" "map_of (map_obj cell3) ''poggers'' = None"
    unfolding ident by blast
  from a have p0: "p0 = EmotePtr 5 (example_emote ''9'' ''pog'' Channel)"
    unfolding addEmote_example by (simp add: example_world2_def)
  have t1: "tooltip (obj p1) = ''poggers<br>Channel 7TV Emote<br>By: <deleted>''"
    using s1(3) by (simp add: p0 createTooltip_def example_emote_def)
  have t2: "tooltip (obj p2) = ''pog2<br>Alias of poggers<br>Channel 7TV Emote<br>By: <deleted>''"
    using s2(3) by (simp add: p0 createAliasedTooltip_def example_emote_def)
  show ?thesis
    apply (rule exI [of _ p0], rule exI [of _ cell1], rule exI [of _ w1])
    apply (rule exI [of _ p1], rule exI [of _ cell2], rule exI [of _ w2])
    apply (rule exI [of _ p2], rule exI [of _ cell3], rule exI [of _ w3])
    using a p0 s0 u1 s1(1,2,4,5) t1 u2 s2(1,2,4,5) t2
    apply simp
    done
qed

subsection \<open>What an operation leaves alone\<close>

text \<open>
  Claim C10: in the collection that Add publishes, the added name maps to the returned
  record and every other key maps to the same pointer as before; when the name was
  already present the collection keeps its size (the record under that name is
  replaced), otherwise it grows by one. In the collection that Update publishes, every
  key other than the located record's name and the new display name maps to the same
  pointer as before (the located record's name is the key it was found under when the
  collection is keyed by name). In the collection that Remove publishes, the removed key
  is absent and every other key maps to the same pointer as before.
\<close>

theorem operations_frame:
  "(addEmote cfg cell a kind w = Inr (Some p, cell', w') \<longrightarrow>
      map_of (map_obj cell') (name (obj p)) = Some p \<and>
      (\<forall>k. k \<noteq> name (obj p) \<longrightarrow> map_of (map_obj cell') k = map_of (map_obj cell) k) \<and>
      length (map_obj cell') =
        (if name (obj p) \<in> fst ` set (map_obj cell) then length (map_obj cell)
         else Suc (length (map_obj cell)))) \<and>
   (findEmote (map_obj cell) (emoteName u) (emoteID u) = Some (key, old) \<and>
    updateEmote cell u kind w = Inr (r, cell', w') \<longrightarrow>
      (\<forall>k. k \<noteq> name (obj old) \<and> k \<noteq> emoteName u \<longrightarrow>
           map_of (map_obj cell') k = map_of (map_obj cell) k) \<and>
      (keyedByName (map_obj cell) \<longrightarrow> key = name (obj old))) \<and>
   (findEmote (map_obj cell) (emoteName u) (emoteID u) = Some (key, old) \<and>
    removeEmote cell u w = Inr (r, cell', w') \<longrightarrow>
      (\<forall>k. k \<noteq> key \<longrightarrow> map_of (map_obj cell') k = map_of (map_obj cell) k) \<and>
      map_of (map_obj cell') key = None)"
proof (intro conjI impI)
  assume a: "addEmote cfg cell a kind w = Inr (Some p, cell', w')"
  from addEmote_Some [OF a]
  have c: "map_obj cell' = AList.update (name (obj p)) p (map_obj cell)" by simp
  show "map_of (map_obj cell') (name (obj p)) = Some p" by (simp add: c update_conv')
  show "\<forall>k. k \<noteq> name (obj p) \<longrightarrow> map_of (map_obj cell') k = map_of (map_obj cell) k"
    by (simp add: c update_conv')
  show "length (map_obj cell') =
        (if name (obj p) \<in> fst ` set (map_obj cell) then length (map_obj cell)
         else Suc (length (map_obj cell)))"
    unfolding c by (rule length_update)
next
  assume a: "findEmote (map_obj cell) (emoteName u) (emoteID u) = Some (key, old) \<and>
    updateEmote cell u kind w = Inr (r, cell', w')"
  from updateEmote_hit [of cell u key old kind w] a
  have c: "map_obj cell' =
      AList.update (emoteName u) (fst (createUpdatedEmote old u kind w))
        (AList.delete (name (obj old)) (map_obj cell))" by auto
  show "\<forall>k. k \<noteq> name (obj old) \<and> k \<noteq> emoteName u \<longrightarrow>
           map_of (map_obj cell') k = map_of (map_obj cell) k"
    by (simp add: c update_conv' delete_conv')
  show "key = name (obj old)" if "keyedByName (map_obj cell)"
    using findEmote_in_map [of "map_obj cell" "emoteName u" "emoteID u" key old] a that
    by (auto simp: keyedByName_def)
next
  assume a: "findEmote (map_obj cell) (emoteName u) (emoteID u) = Some (key, old) \<and>
    removeEmote cell u w = Inr (r, cell', w')"
  from removeEmote_hit [of cell u key old w] a
  have c: "map_obj cell' = AList.delete key (map_obj cell)" by auto
  show "\<forall>k. k \<noteq> key \<longrightarrow> map_of (map_obj cell') k = map_of (map_obj cell) k"
    by (simp add: c delete_conv')
  show "map_of (map_obj cell') key = None" by (simp add: c delete_conv')
qed

theorem operations_frame_witness:
  "(\<exists>p cell' w'.
      addEmote example_cfg example_cell2 \<lparr>emoteJson = toObject (example_entry ''9'' ''pog'')\<rparr>
        Channel example_world2 = Inr (Some p, cell', w') \<and>
      map_of (map_obj cell') ''pog'' = Some p \<and> emote_id (obj p) = ''9'' \<and>
      map_of (map_obj cell') ''kek'' = Some (EmotePtr 3 (example_emote ''2'' ''kek'' Channel)) \<and>
      length (map_obj cell') = 2) \<and>
   (\<exists>r cell' w'.
      updateEmote example_cell2 \<lparr>emoteID = ''1'', emoteName = ''pog2''\<rparr> Channel
        example_world2 = Inr (r, cell', w') \<and>
      map_of (map_obj cell') ''kek'' = Some (EmotePtr 3 (example_emote ''2'' ''kek'' Channel))) \<and>
   (\<exists>r cell' w'.
      removeEmote example_cell2 \<lparr>emoteID = ''1'', emoteName = ''pog''\<rparr> example_world2 =
        Inr (r, cell', w') \<and>
      map_of (map_obj cell') ''kek'' = Some (EmotePtr 3 (example_emote ''2'' ''kek'' Channel)) \<and>
      map_of (map_obj cell') ''pog'' = None)"
proof -
  let ?p = "EmotePtr 5 (example_emote ''9'' ''pog'' Channel)"
  let ?u1 = "\<lparr>emoteID = ''1'', emoteName = ''pog2''\<rparr>"
  let ?u2 = "\<lparr>emoteID = ''1'', emoteName = ''pog''\<rparr>"
  let ?old = "EmotePtr 1 (example_emote ''1'' ''pog'' Channel)"
  obtain cellA wA where
    a: "addEmote example_cfg example_cell2 \<lparr>emoteJson = toObject (example_entry ''9'' ''pog'')\<rparr>
          Channel example_world2 = Inr (Some ?p, cellA, wA)"
    unfolding addEmote_example by (simp add: example_world2_def)
  have f1: "findEmote (map_obj example_cell2) (emoteName ?u1) (emoteID ?u1) = Some (''pog'', ?old)"
    by (simp add: findEmote_def example_cell2_def example_map2_def example_emote_def)
  have f2: "findEmote (map_obj example_cell2) (emoteName ?u2) (emoteID ?u2) = Some (''pog'', ?old)"
    by (simp add: findEmote_def example_cell2_def example_map2_def example_emote_def)
  obtain rB cellB wB where
    b: "updateEmote example_cell2 ?u1 Channel example_world2 = Inr (rB, cellB, wB)"
    using updateEmote_hit [OF f1, of Channel example_world2] by simp
  obtain rC cellC wC where
    c: "removeEmote example_cell2 ?u2 example_world2 = Inr (rC, cellC, wC)"
    using removeEmote_hit [OF f2, of example_world2] by simp
  have k: "map_of (map_obj example_cell2) ''kek'' =
             Some (EmotePtr 3 (example_emote ''2'' ''kek'' Channel))"
    "length (map_obj example_cell2) = 2" "''pog'' \<in> fst ` set (map_obj example_cell2)"
    by (simp_all add: example_cell2_def example_map2_def)
  have n: "name (obj ?p) = ''pog''" "name (obj ?old) = ''pog''" "emote_id (obj ?p) = ''9''"
    by (simp_all add: example_emote_def)
  from operations_frame
      [where cfg = example_cfg and cell = example_cell2 and kind = Channel
         and w = example_world2 and p = ?p and cell' = cellA and w' = wA
         and a = "\<lparr>emoteJson = toObject (example_entry ''9'' ''pog'')\<rparr>"] a k n
  have A: "map_of (map_obj cellA) ''pog'' = Some ?p"
    "map_of (map_obj cellA) ''kek'' = Some (EmotePtr 3 (example_emote ''2'' ''kek'' Channel))"
    "length (map_obj cellA) = 2"
    by simp_all
  from operations_frame
      [where cell = example_cell2 and kind = Channel and w = example_world2 and u = ?u1
         and key = "''pog''" and old = ?old and r = rB and cell' = cellB and w' = wB] f1 b k n
  have B: "map_of (map_obj cellB) ''kek'' = Some (EmotePtr 3 (example_emote ''2'' ''kek'' Channel))"
    by simp
  from operations_frame
      [where cell = example_cell2 and w = example_world2 and u = ?u2
         and key = "''pog''" and old = ?old and r = rC and cell' = cellC and w' = wC] f2 c k
  have C: "map_of (map_obj cellC) ''kek'' = Some (EmotePtr 3 (example_emote ''2'' ''kek'' Channel))"
    "map_of (map_obj cellC) ''pog'' = None"
    by simp_all
  from a A n(3) b B c C show ?thesis by blast
qed

section \<open>The invariant of a collection\<close>



section \<open>Sharing through the intern cache\<close>

text \<open>
  Claim C4, as stated, says that the incremental Add materialises its record through
  the intern cache as the batch builder does, so that a second materialisation of an
  identifier whose first instance is still referenced yields that instance.
  \<^verbatim>\<open>addEmote\<close> allocates with \<^verbatim>\<open>std::make_shared\<close> and never calls
  \<^verbatim>\<open>cachedOrMake\<close>: after a build has made the record of the identifier \<open>1\<close> at the
  address 1, which is still live, an Add of the same entry returns a record at the new
  address 2.
\<close>

theorem addEmote_bypasses_cache_counterexample:
  "parseEmotes example_cfg [example_entry ''1'' ''pog''] Channel example_world =
     Inr ([(''pog'', EmotePtr 1 (example_emote ''1'' ''pog'' Channel))],
          \<lparr>next_addr = 2, live = {1, 0},
           cache = (\<lambda>i. None)(''1'' \<mapsto> EmotePtr 1 (example_emote ''1'' ''pog'' Channel))\<rparr>) \<and>
   returned
     (addEmote example_cfg example_cell \<lparr>emoteJson = toObject (example_entry ''1'' ''pog'')\<rparr>
        Channel
        \<lparr>next_addr = 2, live = {1, 0},
         cache = (\<lambda>i. None)(''1'' \<mapsto> EmotePtr 1 (example_emote ''1'' ''pog'' Channel))\<rparr>) =
     Some (EmotePtr 2 (example_emote ''1'' ''pog'' Channel)) \<and>
   addr (EmotePtr 2 (example_emote ''1'' ''pog'' Channel)) \<noteq>
     addr (EmotePtr 1 (example_emote ''1'' ''pog'' Channel))"
  by (simp add: parseEmotes_def parseLoop_example cache_simps example_world_def
      addEmote_example returned_def numeral_2_eq_2 del: parseLoop.simps(2))

text \<open>
  Claim C4, amended: the batch builder materialises records through the intern cache.
  While the instance that \<^verbatim>\<open>cachedOrMake\<close> returned for an identifier is still strongly
  referenced, every later call for that identifier returns the same instance and leaves
  the world unchanged, whatever steps (other lookups, allocations, releases of other
  objects) happened in between; hence two records with the same identifier in two built
  collections, the first still referenced at the second build, are the same instance.
  The incremental Add does not consult the cache: the record it returns is newly
  allocated, is no instance held by the cache, and the cache is left as it was.
\<close>

theorem intern_cache_sharing:
  "(world_ok w \<and> emote_id e = i \<and> hasPrimaryImage e \<and> cachedOrMake e i w = (p, w1) \<and>
    world_step\<^sup>*\<^sup>* w1 w2 \<and> addr p \<in> live w2 \<longrightarrow>
      cachedOrMake e' i w2 = (p, w2)) \<and>
   (world_ok w \<and> parseEmotes cfg es kind w = Inr (m1, w1) \<and> (k1, p) \<in> set m1 \<and>
    world_step\<^sup>*\<^sup>* w1 w2 \<and> addr p \<in> live w2 \<and>
    parseEmotes cfg' es' kind' w2 = Inr (m2, w3) \<and> (k2, p') \<in> set m2 \<and>
    emote_id (obj p') = emote_id (obj p) \<longrightarrow>
      p' = p) \<and>
   (world_ok w \<and> addEmote cfg cell a kind w = Inr (Some p, cell', w') \<longrightarrow>
      addr p \<notin> live w \<and> cache w' = cache w \<and>
      (\<forall>j q. cache w j = Some q \<longrightarrow> addr q \<noteq> addr p) \<and>
      world_step\<^sup>*\<^sup>* w w')"
proof (intro conjI impI)
  assume a: "world_ok w \<and> emote_id e = i \<and> hasPrimaryImage e \<and> cachedOrMake e i w = (p, w1) \<and>
    world_step\<^sup>*\<^sup>* w1 w2 \<and> addr p \<in> live w2"
  then have "world_ok w" "emote_id e = i" "hasPrimaryImage e" "cachedOrMake e i w = (p, w1)"
    by simp_all
  from cachedOrMake_result [OF this]
  have ok1: "world_ok w1" and c1: "cache w1 i = Some p" by simp_all
  from a have st: "world_step\<^sup>*\<^sup>* w1 w2" and lv: "addr p \<in> live w2" by simp_all
  from world_steps_cache [OF st ok1 c1 lv] have "cache w2 i = Some p" by simp
  from cachedOrMake_hit [OF this lv] show "cachedOrMake e' i w2 = (p, w2)" .
next
  assume a: "world_ok w \<and> parseEmotes cfg es kind w = Inr (m1, w1) \<and> (k1, p) \<in> set m1 \<and>
    world_step\<^sup>*\<^sup>* w1 w2 \<and> addr p \<in> live w2 \<and>
    parseEmotes cfg' es' kind' w2 = Inr (m2, w3) \<and> (k2, p') \<in> set m2 \<and>
    emote_id (obj p') = emote_id (obj p)"
  then have ok: "world_ok w" and b1: "parseEmotes cfg es kind w = Inr (m1, w1)"
    and k1: "(k1, p) \<in> set m1" and st: "world_step\<^sup>*\<^sup>* w1 w2" and lv: "addr p \<in> live w2"
    and b2: "parseEmotes cfg' es' kind' w2 = Inr (m2, w3)" and k2: "(k2, p') \<in> set m2"
    and same: "emote_id (obj p') = emote_id (obj p)"
    by simp_all
  from parseEmotes_cached [OF ok b1 k1]
  have ok1: "world_ok w1" and c1: "cache w1 (emote_id (obj p)) = Some p" by simp_all
  have ok2: "world_ok w2" using st ok1 by (rule world_steps_ok)
  from world_steps_cache [OF st ok1 c1 lv] have c2: "cache w2 (emote_id (obj p)) = Some p"
    by simp
  from parseEmotes_cached [OF ok2 b2 k2]
  have st3: "world_step\<^sup>*\<^sup>* w2 w3" and sub: "live w2 \<subseteq> live w3"
    and c3: "cache w3 (emote_id (obj p')) = Some p'" by simp_all
  from sub lv have "addr p \<in> live w3" by blast
  from world_steps_cache [OF st3 ok2 c2 this] have "cache w3 (emote_id (obj p)) = Some p"
    by simp
  with c3 same show "p' = p" by simp
next
  assume a: "world_ok w \<and> addEmote cfg cell a kind w = Inr (Some p, cell', w')"
  then have ok: "world_ok w" and r: "addEmote cfg cell a kind w = Inr (Some p, cell', w')"
    by simp_all
  from addEmote_Some [OF r]
  have ad: "addr p = next_addr w"
    and w': "w' = w\<lparr>next_addr := Suc (Suc (next_addr w)),
                live := insert (Suc (next_addr w)) (insert (next_addr w) (live w))\<rparr>"
    by simp_all
  show "addr p \<notin> live w" using ok ad by (auto simp: world_ok_def)
  show "cache w' = cache w" by (simp add: w')
  show "\<forall>j q. cache w j = Some q \<longrightarrow> addr q \<noteq> addr p"
  proof (intro allI impI)
    fix j q assume "cache w j = Some q"
    with ok have "addr q < next_addr w" unfolding world_ok_def by blast
    with ad show "addr q \<noteq> addr p" by simp
  qed
  show "world_step\<^sup>*\<^sup>* w w'" using r by (rule addEmote_steps)
qed

theorem intern_cache_sharing_witness:
  "cachedOrMake (example_emote ''1'' ''pog2'' Channel) ''1''
     \<lparr>next_addr = 2, live = {1},
      cache = (\<lambda>i. None)(''1'' \<mapsto> EmotePtr 1 (example_emote ''1'' ''pog'' Channel))\<rparr> =
     (EmotePtr 1 (example_emote ''1'' ''pog'' Channel),
      \<lparr>next_addr = 2, live = {1},
       cache = (\<lambda>i. None)(''1'' \<mapsto> EmotePtr 1 (example_emote ''1'' ''pog'' Channel))\<rparr>) \<and>
   (\<exists>w3.
      parseEmotes example_cfg [example_entry ''1'' ''pog''] Channel
        \<lparr>next_addr = 2, live = {1},
         cache = (\<lambda>i. None)(''1'' \<mapsto> EmotePtr 1 (example_emote ''1'' ''pog'' Channel))\<rparr> =
        Inr ([(''pog'', EmotePtr 1 (example_emote ''1'' ''pog'' Channel))], w3)) \<and>
   (\<exists>p c w'.
      addEmote example_cfg example_cell \<lparr>emoteJson = toObject (example_entry ''1'' ''pog'')\<rparr>
        Channel
        \<lparr>next_addr = 2, live = {1},
         cache = (\<lambda>i. None)(''1'' \<mapsto> EmotePtr 1 (example_emote ''1'' ''pog'' Channel))\<rparr> =
        Inr (Some p, c, w') \<and>
      addr p \<noteq> 1 \<and> cache w' ''1'' = Some (EmotePtr 1 (example_emote ''1'' ''pog'' Channel)))"
proof -
  let ?E = "example_emote ''1'' ''pog'' Channel"
  let ?P = "EmotePtr 1 ?E"
  let ?W1 = "\<lparr>next_addr = 2, live = {1, 0}, cache = (\<lambda>i. None)(''1'' \<mapsto> ?P)\<rparr>"
  let ?W2 = "\<lparr>next_addr = 2, live = {1}, cache = (\<lambda>i. None)(''1'' \<mapsto> ?P)\<rparr>"
  let ?a = "\<lparr>emoteJson = toObject (example_entry ''1'' ''pog'')\<rparr>"
  have E: "emote_id ?E = ''1''" "hasPrimaryImage ?E"
    by (simp_all add: example_emote_def hasPrimaryImage_def example_images_def)
  have c1: "cachedOrMake ?E ''1'' example_world = (?P, ?W1)"
    by (simp add: cache_simps example_world_def numeral_2_eq_2)
  have b1: "parseEmotes example_cfg [example_entry ''1'' ''pog''] Channel example_world =
      Inr ([(''pog'', ?P)], ?W1)"
    by (simp add: parseEmotes_def parseLoop_example c1 map_assign_def del: parseLoop.simps(2))
  have "world_step ?W1 (?W1\<lparr>live := live ?W1 - {0}\<rparr>)" by (rule world_step.release)
  moreover have "?W1\<lparr>live := live ?W1 - {0}\<rparr> = ?W2" by auto
  ultimately have st: "world_step\<^sup>*\<^sup>* ?W1 ?W2" by (simp add: r_into_rtranclp)
  have lv: "addr ?P \<in> live ?W2" by simp
  have ok2: "world_ok ?W2"
    using E by (simp add: world_ok_def)
  note inst = intern_cache_sharing
    [where w = example_world and e = ?E and i = "''1''" and p = ?P and ?w1.0 = ?W1
       and ?w2.0 = ?W2 and e' = "example_emote ''1'' ''pog2'' Channel"
       and cfg = example_cfg and es = "[example_entry ''1'' ''pog'']" and kind = Channel
       and ?m1.0 = "[(''pog'', ?P)]" and ?k1.0 = "''pog''"
       and cfg' = example_cfg and es' = "[example_entry ''1'' ''pog'']" and kind' = Channel]
  from inst world_ok_example E c1 st lv
  have A: "cachedOrMake (example_emote ''1'' ''pog2'' Channel) ''1'' ?W2 = (?P, ?W2)"
    by blast
  obtain p' w3 where
    b2: "parseEmotes example_cfg [example_entry ''1'' ''pog''] Channel ?W2 =
           Inr ([(''pog'', p')], w3)"
    and id': "emote_id (obj p') = ''1''"
    using E(1)
    by (simp add: parseEmotes_def parseLoop_example cache_simps del: parseLoop.simps(2))
  from inst [where ?m2.0 = "[(''pog'', p')]" and ?w3.0 = w3 and ?k2.0 = "''pog''" and p' = p']
    world_ok_example b1 st lv b2 id' E(1)
  have "p' = ?P" by simp
  with b2 have B: "\<exists>w3. parseEmotes example_cfg [example_entry ''1'' ''pog''] Channel ?W2 =
        Inr ([(''pog'', ?P)], w3)" by blast
  obtain p c w' where
    a: "addEmote example_cfg example_cell ?a Channel ?W2 = Inr (Some p, c, w')"
    unfolding addEmote_example by simp
  from intern_cache_sharing [where w = ?W2 and cfg = example_cfg and cell = example_cell
      and a = ?a and kind = Channel and p = p and cell' = c and w' = w'] ok2 a
  have "addr p \<notin> live ?W2" "cache w' = cache ?W2" by blast+
  then have "addr p \<noteq> 1" "cache w' ''1'' = Some ?P" by simp_all
  with a have C: "\<exists>p c w'.
      addEmote example_cfg example_cell ?a Channel ?W2 = Inr (Some p, c, w') \<and>
      addr p \<noteq> 1 \<and> cache w' ''1'' = Some ?P" by blast
  from A B C show ?thesis by (intro conjI)
qed
section \<open>What the batch builder lets in\<close>

text \<open>
  Claim C8: every record of the collection that \<^verbatim>\<open>parseEmotes\<close> returns has a 1x image
  that is not the empty placeholder, and was stored for an entry of the batch with the
  key as its display name and the record's identifier, whose metadata is not absent,
  which passes the visibility policy (it is listed or unlisted emotes are shown; it
  carries the tag \<open>PERSONAL\<close> when the set is personal; it is not flagged as disallowed
  on the platform), and from which \<^verbatim>\<open>createEmote\<close> builds a record with a 1x image.
  The entries that fail one of these tests are skipped: the build returns what it
  returns on the batch without them. The worlds are those the program reaches
  (\<open>world_ok\<close>), where the cache holds records that went through these tests.
\<close>

theorem parseEmotes_only_accepted:
  "(world_ok w \<and> parseEmotes cfg es kind w = Inr (m, w') \<and> (k, p) \<in> set m \<longrightarrow>
      hasPrimaryImage (obj p) \<and>
      (\<exists>e\<in>set es.
         entryName e = k \<and> entryId e = emote_id (obj p) \<and>
         entryData e \<noteq> [] \<and>
         (toBool (jvalue (entryData e) ''listed'') \<or> showUnlistedSevenTVEmotes cfg) \<and>
         (kind = Personal \<longrightarrow>
            JString ''PERSONAL'' \<in> set (toArray (jvalue (entryData e) ''state''))) \<and>
         \<not> hasContentTwitchDisallowed cfg (toInt 0 (jvalue (entryData e) ''flags'')) \<and>
         (\<exists>r. createEmote cfg (toObject e) (entryData e) kind = Inr r \<and> hasImages r \<and>
              hasPrimaryImage (emote r)))) \<and>
   parseEmotes cfg es kind w = parseEmotes cfg (filter (entryAccepted cfg kind) es) kind w \<and>
   (entryAccepted cfg kind e \<longleftrightarrow>
      entryData e \<noteq> [] \<and> checkEmoteVisibility cfg (entryData e) kind \<and>
      (\<exists>r. createEmote cfg (toObject e) (entryData e) kind = Inr r \<and> hasImages r))"
proof (intro conjI impI)
  assume a: "world_ok w \<and> parseEmotes cfg es kind w = Inr (m, w') \<and> (k, p) \<in> set m"
  then have ok: "world_ok w" and b: "parseEmotes cfg es kind w = Inr (m, w')"
    and km: "(k, p) \<in> set m" by simp_all
  from parseEmotes_cached [OF ok b km]
  obtain e where ok': "world_ok w'" and c: "cache w' (emote_id (obj p)) = Some p"
    and e: "e \<in> set es" "entryAccepted cfg kind e" "entryName e = k"
      "entryId e = emote_id (obj p)"
    by blast
  from ok' c show "hasPrimaryImage (obj p)" unfolding world_ok_def by blast
  from createEmote_total [of cfg "toObject e" "entryData e" kind] e(2)
  have "\<exists>r. createEmote cfg (toObject e) (entryData e) kind = Inr r \<and> hasImages r \<and>
              hasPrimaryImage (emote r)"
    by (auto simp: entryAccepted_def)
  with e show "\<exists>e\<in>set es.
         entryName e = k \<and> entryId e = emote_id (obj p) \<and>
         entryData e \<noteq> [] \<and>
         (toBool (jvalue (entryData e) ''listed'') \<or> showUnlistedSevenTVEmotes cfg) \<and>
         (kind = Personal \<longrightarrow>
            JString ''PERSONAL'' \<in> set (toArray (jvalue (entryData e) ''state''))) \<and>
         \<not> hasContentTwitchDisallowed cfg (toInt 0 (jvalue (entryData e) ''flags'')) \<and>
         (\<exists>r. createEmote cfg (toObject e) (entryData e) kind = Inr r \<and> hasImages r \<and>
              hasPrimaryImage (emote r))"
    unfolding entryAccepted_def checkEmoteVisibility_iff by blast
next
  show "parseEmotes cfg es kind w = parseEmotes cfg (filter (entryAccepted cfg kind) es) kind w"
    unfolding parseEmotes_def by (rule parseLoop_filter)
next
  from createEmote_total [of cfg "toObject e" "entryData e" kind]
  show "entryAccepted cfg kind e \<longleftrightarrow>
      entryData e \<noteq> [] \<and> checkEmoteVisibility cfg (entryData e) kind \<and>
      (\<exists>r. createEmote cfg (toObject e) (entryData e) kind = Inr r \<and> hasImages r)"
    by (auto simp: entryAccepted_def)
qed

theorem parseEmotes_only_accepted_witness:
  "parseEmotes example_cfg example_batch Channel example_world =
     Inr ([(''pog'', EmotePtr 1 (example_emote ''1'' ''pog'' Channel)),
           (''kek'', EmotePtr 2 (example_emote ''2'' ''kek'' Channel))],
          \<lparr>next_addr = 3, live = {2, 1, 0},
           cache = (\<lambda>i. None)(''1'' \<mapsto> EmotePtr 1 (example_emote ''1'' ''pog'' Channel),
                                ''2'' \<mapsto> EmotePtr 2 (example_emote ''2'' ''kek'' Channel))\<rparr>) \<and>
   hasPrimaryImage (example_emote ''2'' ''kek'' Channel) \<and>
   (\<exists>r. createEmote example_cfg (toObject (example_entry ''2'' ''kek''))
          (entryData (example_entry ''2'' ''kek'')) Channel = Inr r \<and> hasImages r) \<and>
   \<not> entryAccepted example_cfg Channel example_unlisted"
proof -
  let ?P2 = "EmotePtr 2 (example_emote ''2'' ''kek'' Channel)"
  let ?m = "[(''pog'', EmotePtr 1 (example_emote ''1'' ''pog'' Channel)), (''kek'', ?P2)]"
  let ?w' = "\<lparr>next_addr = 3, live = {2, 1, 0},
           cache = (\<lambda>i. None)(''1'' \<mapsto> EmotePtr 1 (example_emote ''1'' ''pog'' Channel),
                                ''2'' \<mapsto> ?P2)\<rparr>"
  note inst = parseEmotes_only_accepted
    [where w = example_world and cfg = example_cfg and es = example_batch and kind = Channel
       and m = ?m and w' = ?w' and k = "''kek''" and p = ?P2]
  from inst have "parseEmotes example_cfg example_batch Channel example_world =
      parseEmotes example_cfg (filter (entryAccepted example_cfg Channel) example_batch) Channel
        example_world" by blast
  then have b: "parseEmotes example_cfg example_batch Channel example_world = Inr (?m, ?w')"
    by (simp add: example_batch_filter parseEmotes_example2)
  have km: "(''kek'', ?P2) \<in> set ?m" by simp
  from inst world_ok_example b km
  have img: "hasPrimaryImage (obj ?P2)"
    and ex: "\<exists>e\<in>set example_batch. entryName e = ''kek'' \<and>
         (\<exists>r. createEmote example_cfg (toObject e) (entryData e) Channel = Inr r \<and> hasImages r \<and>
              hasPrimaryImage (emote r))"
    by blast+
  from ex have cr: "\<exists>r. createEmote example_cfg (toObject (example_entry ''2'' ''kek''))
          (entryData (example_entry ''2'' ''kek'')) Channel = Inr r \<and> hasImages r"
    by (auto simp: example_batch_def example_batch_names)
  from inst [where e = example_unlisted] createEmote_total
      [of example_cfg "toObject example_unlisted" "entryData example_unlisted" Channel]
  have "\<not> entryAccepted example_cfg Channel example_unlisted"
    by (simp add: checkEmoteVisibility_def entryData_def example_unlisted_def example_cfg_def
        json_simps)
  with b img cr show ?thesis by simp
qed
section \<open>No operation fails\<close>



end
